theory Spec2Isabelle
  imports Complex_Main "HOL-Library.Sublist" "HOL-Library.AList"
begin

section \<open>JavaScript values and string primitives\<close>

text \<open>
  The node is TypeScript running on Node.js. A string is modelled by the list of its code
  units, restricted to the units below 256; a number that the code uses as an index, a
  count or a byte length is an \<open>int\<close> (fractions, exponents and the precision of doubles
  are outside this embedding), and \<open>NaN\<close> is \<open>None\<close> wherever the code can produce it.
  A value that comes from JSON is a \<open>jvalue\<close>; an object is the list of its properties
  in source order, each name occurring once.
\<close>

datatype jvalue =
    JNull
  | JBool bool
  | JNum int
  | JStr string
  | JArr "jvalue list"
  | JObj "(string \<times> jvalue) list"

text \<open>Property access \<open>v.k\<close>: \<open>None\<close> is \<open>undefined\<close>. Only objects carry the
  properties the code reads (\<open>id\<close>, \<open>documentId\<close>, \<open>sheets\<close>, \<open>fields\<close>, \<open>success\<close>,
  \<open>index\<close>, \<open>name\<close>, \<open>title\<close>, \<open>original\<close>, \<open>error\<close>); on an array, a string, a number or
  a boolean each of them is \<open>undefined\<close>. Reading a property of \<open>null\<close> throws, and every
  caller below tests for \<open>null\<close> first.\<close>

fun getProp :: "jvalue \<Rightarrow> string \<Rightarrow> jvalue option" where
  "getProp (JObj kvs) k = map_of kvs k"
| "getProp _ k = None"

text \<open>ToBoolean: \<open>null\<close>, \<open>false\<close>, \<open>0\<close> and the empty string are falsy.\<close>

fun truthy :: "jvalue \<Rightarrow> bool" where
  "truthy JNull = False"
| "truthy (JBool b) = b"
| "truthy (JNum n) = (n \<noteq> 0)"
| "truthy (JStr s) = (s \<noteq> [])"
| "truthy (JArr xs) = True"
| "truthy (JObj kvs) = True"

fun truthy_opt :: "jvalue option \<Rightarrow> bool" where
  "truthy_opt None = False"
| "truthy_opt (Some v) = truthy v"

definition isWhiteSpace :: "char \<Rightarrow> bool" where
  "isWhiteSpace c = (of_char c \<in> {9, 10, 11, 12, 13, 32, 160 :: nat})"

definition isDigit :: "char \<Rightarrow> bool" where
  "isDigit c = (48 \<le> (of_char c :: nat) \<and> (of_char c :: nat) \<le> 57)"

definition trim :: "string \<Rightarrow> string" where
  "trim s = rev (dropWhile isWhiteSpace (rev (dropWhile isWhiteSpace s)))"

definition digitsValue :: "string \<Rightarrow> nat" where
  "digitsValue ds = foldl (\<lambda>acc c. 10 * acc + (of_char c - 48)) 0 ds"

text \<open>\<open>parseInt(s, 10)\<close>: leading white space is skipped, one sign is read, then the
  longest run of decimal digits; no digit gives \<open>NaN\<close>.\<close>

definition parseInt :: "string \<Rightarrow> int option" where
  "parseInt inputString =
     (let S = dropWhile isWhiteSpace inputString;
          neg = (S \<noteq> [] \<and> hd S = CHR ''-'');
          S' = (if S \<noteq> [] \<and> (hd S = CHR ''+'' \<or> hd S = CHR ''-'') then tl S else S);
          Z = takeWhile isDigit S'
      in if Z = [] then None
         else Some ((if neg then - 1 else 1) * int (digitsValue Z)))"

text \<open>\<open>n.toString()\<close> and \<open>String(n)\<close> of an integer: its decimal digits, with a minus
  sign below zero (the exponent form of magnitudes from \<open>10^21\<close> on is not modelled).\<close>

definition digitChar :: "nat \<Rightarrow> char" where
  "digitChar d = char_of (48 + d)"

function natToString :: "nat \<Rightarrow> string" where
  "natToString n = (if n < 10 then [digitChar n] else natToString (n div 10) @ [digitChar (n mod 10)])"
  by pat_completeness auto
termination
  by (relation "measure id") auto

declare natToString.simps [simp del]

definition Number_toString :: "int \<Rightarrow> string" where
  "Number_toString i = (if i < 0 then CHR ''-'' # natToString (nat (- i)) else natToString (nat i))"

text \<open>\<open>xs.join(sep)\<close> on strings.\<close>

fun joinWith :: "string \<Rightarrow> string list \<Rightarrow> string" where
  "joinWith sep [] = []"
| "joinWith sep [x] = x"
| "joinWith sep (x # y # ys) = x @ sep @ joinWith sep (y # ys)"

text \<open>\<open>String(v)\<close>, the conversion inside a template literal and the conversion of the
  elements in \<open>Array.prototype.join\<close>. \<open>None\<close> is a \<open>TypeError\<close>: an object that has an own
  property \<open>toString\<close> cannot be converted, because in a value that comes from JSON that
  property is never a function and the inherited \<open>valueOf\<close> returns the object itself.
  Every other object gives \<open>[object Object]\<close>. An array joins the strings of its elements
  with commas, \<open>null\<close> elements giving the empty string, and throws when an element does.\<close>

fun jsToString :: "jvalue \<Rightarrow> string option"
  and joinValues :: "string \<Rightarrow> jvalue list \<Rightarrow> string option" where
  "jsToString JNull = Some ''null''"
| "jsToString (JBool b) = Some (if b then ''true'' else ''false'')"
| "jsToString (JNum n) = Some (Number_toString n)"
| "jsToString (JStr s) = Some s"
| "jsToString (JArr xs) = joinValues '','' xs"
| "jsToString (JObj kvs) =
     (if map_of kvs ''toString'' \<noteq> None then None else Some ''[object Object]'')"
| "joinValues sep [] = Some []"
| "joinValues sep (x # xs) =
     (case (if x = JNull then Some [] else jsToString x) of
        None \<Rightarrow> None
      | Some s \<Rightarrow>
          (case xs of
             [] \<Rightarrow> Some s
           | y # ys \<Rightarrow>
               (case joinValues sep xs of
                  None \<Rightarrow> None
                | Some r \<Rightarrow> Some (s @ sep @ r))))"

text \<open>\<open>parseInt(v, 10)\<close> of a value: the string of the value is parsed; \<open>None\<close> is the
  \<open>TypeError\<close> of the conversion, \<open>Some None\<close> is \<open>NaN\<close>.\<close>

definition parseIntOf :: "jvalue \<Rightarrow> int option option" where
  "parseIntOf v = map_option parseInt (jsToString v)"

text \<open>\<open>a || b\<close> on values that may be \<open>undefined\<close>.\<close>

definition jsOr :: "jvalue option \<Rightarrow> jvalue option \<Rightarrow> jvalue option" where
  "jsOr a b = (if truthy_opt a then a else b)"

text \<open>\<open>s.replace(/\/+$/, '')\<close>: every trailing slash is removed.\<close>

definition stripTrailingSlashes :: "string \<Rightarrow> string" where
  "stripTrailingSlashes s = rev (dropWhile (\<lambda>c. c = CHR ''/'') (rev s))"

text \<open>\<open>s.split(',')\<close>: the pieces between the separators, the empty ones included.\<close>

fun splitOn :: "char \<Rightarrow> string \<Rightarrow> string list" where
  "splitOn sep [] = [[]]"
| "splitOn sep (c # cs) =
     (if c = sep then [] # splitOn sep cs
      else (case splitOn sep cs of
              w # ws \<Rightarrow> (c # w) # ws
            | [] \<Rightarrow> [[c]]))"

section \<open>Parameter parsing\<close>

definition parseExportFields :: "string \<Rightarrow> int list" where
  "parseExportFields exportFieldsRaw =
     (if exportFieldsRaw = [] then []
      else filter (\<lambda>i. i \<ge> 0)
             (map (\<lambda>indexStr. case parseInt indexStr of None \<Rightarrow> - 1 | Some i \<Rightarrow> i)
                (filter (\<lambda>indexStr. indexStr \<noteq> [])
                   (map trim (splitOn CHR '','' exportFieldsRaw)))))"

record CustomMapping =
  index :: int
  name :: string

text \<open>The \<open>index\<close> of an item as the second test of the \<open>filter\<close> callback reads it:
  a number as it is, anything else through \<open>parseInt(item.index, 10)\<close>, which converts
  the value to a string first and throws where that conversion does. An array has no
  \<open>index\<close> property, and \<open>parseInt(undefined, 10)\<close> reads the string \<open>undefined\<close>.\<close>

datatype indexResult = IndexThrows | IndexNaN | IndexIs int

definition itemIndex :: "jvalue \<Rightarrow> indexResult" where
  "itemIndex item =
     (case getProp item ''index'' of
        Some (JNum n) \<Rightarrow> IndexIs n
      | Some v \<Rightarrow>
          (case parseIntOf v of
             None \<Rightarrow> IndexThrows
           | Some None \<Rightarrow> IndexNaN
           | Some (Some i) \<Rightarrow> IndexIs i)
      | None \<Rightarrow> (case parseInt ''undefined'' of None \<Rightarrow> IndexNaN | Some i \<Rightarrow> IndexIs i))"

definition typeofObject :: "jvalue \<Rightarrow> bool" where
  "typeofObject v = (case v of JNull \<Rightarrow> True | JArr xs \<Rightarrow> True | JObj kvs \<Rightarrow> True | _ \<Rightarrow> False)"

definition typeofString :: "jvalue option \<Rightarrow> bool" where
  "typeofString v = (case v of Some (JStr s) \<Rightarrow> True | _ \<Rightarrow> False)"

text \<open>One item of the parsed field mapping, through the three tests of the \<open>filter\<close>
  callback and then the \<open>map\<close> callback of \<open>parseFieldMapping\<close>: the item is kept and
  converted, or dropped, or the second test throws. \<open>typeof item === 'object'\<close> holds of
  objects and of arrays.\<close>

datatype itemResult = Thrown | Dropped | Kept CustomMapping

definition fieldMappingItem :: "jvalue \<Rightarrow> itemResult" where
  "fieldMappingItem item =
     (if \<not> truthy item \<or> \<not> typeofObject item then Dropped
      else (case itemIndex item of
              IndexThrows \<Rightarrow> Thrown
            | IndexNaN \<Rightarrow> Dropped
            | IndexIs i \<Rightarrow>
                if \<not> truthy_opt (getProp item ''name'') \<or> \<not> typeofString (getProp item ''name'')
                then Dropped
                else (case getProp item ''name'' of
                        Some (JStr s) \<Rightarrow> Kept \<lparr> index = i, name = s \<rparr>
                      | _ \<Rightarrow> Dropped)))"

text \<open>\<open>parsedMapping.filter(...).map(...)\<close>: \<open>None\<close> when the callback throws at some
  item. The \<open>map\<close> callback reads only items whose index the filter has already
  converted, so it throws nowhere else.\<close>

fun fieldMappingItems :: "jvalue list \<Rightarrow> CustomMapping list option" where
  "fieldMappingItems [] = Some []"
| "fieldMappingItems (item # rest) =
     (case fieldMappingItem item of
        Thrown \<Rightarrow> None
      | Dropped \<Rightarrow> fieldMappingItems rest
      | Kept m \<Rightarrow> (case fieldMappingItems rest of None \<Rightarrow> None | Some ms \<Rightarrow> Some (m # ms)))"

text \<open>\<open>JSON.parse\<close> belongs to the platform and is a parameter: \<open>None\<close> is a
  \<open>SyntaxError\<close>. Whatever is thrown inside the \<open>try\<close> block, by the parser or by the
  callback, ends in \<open>return []\<close>.\<close>

definition parseFieldMapping :: "(string \<Rightarrow> jvalue option) \<Rightarrow> string \<Rightarrow> CustomMapping list" where
  "parseFieldMapping JSON_parse fieldMappingRaw =
     (if fieldMappingRaw = [] then []
      else (case JSON_parse fieldMappingRaw of
              None \<Rightarrow> []
            | Some (JArr parsedMapping) \<Rightarrow>
                (case fieldMappingItems parsedMapping of
                   None \<Rightarrow> []
                 | Some mappings \<Rightarrow> mappings)
            | Some _ \<Rightarrow> []))"

text \<open>The contract of \<open>parseFieldMapping\<close> in the words of its description: an item
  is kept when it is an object with a numeric (or number-parseable) \<open>index\<close> and a
  non-empty string \<open>name\<close>, and it is delivered as the pair of that index and that name
  (the \<open>0\<close> and the empty name below stand for values an item that is kept never has).
  The index of an item cannot be read when it is neither a number nor convertible to a
  string.\<close>

definition wellFormedItem :: "jvalue \<Rightarrow> bool" where
  "wellFormedItem item =
     (case item of
        JObj kvs \<Rightarrow>
          (case map_of kvs ''index'' of
             Some (JNum n) \<Rightarrow> True
           | Some v \<Rightarrow> (case parseIntOf v of Some (Some i) \<Rightarrow> True | _ \<Rightarrow> False)
           | None \<Rightarrow> False) \<and>
          (case map_of kvs ''name'' of
             Some (JStr s) \<Rightarrow> s \<noteq> []
           | _ \<Rightarrow> False)
      | _ \<Rightarrow> False)"

definition overrideOf :: "jvalue \<Rightarrow> CustomMapping" where
  "overrideOf item =
     \<lparr> index = (case getProp item ''index'' of
                  Some (JNum n) \<Rightarrow> n
                | Some v \<Rightarrow> (case parseIntOf v of Some (Some i) \<Rightarrow> i | _ \<Rightarrow> 0)
                | None \<Rightarrow> 0),
       name = (case getProp item ''name'' of Some (JStr s) \<Rightarrow> s | _ \<Rightarrow> []) \<rparr>"

definition indexUnreadable :: "jvalue \<Rightarrow> bool" where
  "indexUnreadable item =
     (case item of
        JObj kvs \<Rightarrow>
          (case map_of kvs ''index'' of
             Some (JNum n) \<Rightarrow> False
           | Some v \<Rightarrow> jsToString v = None
           | None \<Rightarrow> False)
      | _ \<Rightarrow> False)"

section \<open>URL Validator\<close>

text \<open>\<open>new URL(s).protocol\<close> belongs to the platform and is the parameter \<open>newURL\<close>
  of \<open>isValidUrl\<close>: \<open>None\<close> is the \<open>TypeError\<close> of the constructor, which the \<open>catch\<close>
  turns into \<open>false\<close>.\<close>

definition isValidUrl :: "(string \<Rightarrow> string option) \<Rightarrow> string \<Rightarrow> bool" where
  "isValidUrl newURL urlString =
     (if urlString = [] then False
      else (let urlString' =
                  (if \<not> prefix ''http://'' urlString \<and> \<not> prefix ''https://'' urlString
                   then ''http://'' @ urlString else urlString)
            in case newURL urlString' of
                 None \<Rightarrow> False
               | Some protocol \<Rightarrow> protocol = ''http:'' \<or> protocol = ''https:''))"

text \<open>Whether a scheme is present in a string, in the sense of the URL Standard: a
  letter, then letters, digits, \<open>+\<close>, \<open>-\<close> or \<open>.\<close>, then a colon.\<close>

definition isAlpha :: "char \<Rightarrow> bool" where
  "isAlpha c = ((65 \<le> (of_char c :: nat) \<and> (of_char c :: nat) \<le> 90) \<or>
                (97 \<le> (of_char c :: nat) \<and> (of_char c :: nat) \<le> 122))"

definition isSchemeChar :: "char \<Rightarrow> bool" where
  "isSchemeChar c = (isAlpha c \<or> isDigit c \<or> c = CHR ''+'' \<or> c = CHR ''-'' \<or> c = CHR ''.'')"

definition hasScheme :: "string \<Rightarrow> bool" where
  "hasScheme s =
     (case s of
        [] \<Rightarrow> False
      | c # cs \<Rightarrow> isAlpha c \<and>
          (case dropWhile isSchemeChar cs of [] \<Rightarrow> False | d # ds \<Rightarrow> d = CHR '':''))"

section \<open>Field Mapper\<close>

text \<open>A \<open>Record<string, any>\<close> is an association list: an assignment replaces the value
  of a key that is there and adds a key that is not. The order in which JavaScript lists
  the keys is not modelled.\<close>

record FieldMappings =
  mapping :: "(string \<times> jvalue) list"
  exportFieldIndexes :: "int list"

text \<open>\<open>customMappingsMap\<close>: a \<open>Map\<close> filled by \<open>set\<close> in list order, so a later
  override of an index replaces an earlier one.\<close>

definition customMappingsMap :: "CustomMapping list \<Rightarrow> (int \<rightharpoonup> string)" where
  "customMappingsMap customMappings =
     fold (\<lambda>m acc. acc(index m \<mapsto> name m)) customMappings Map.empty"

text \<open>\<open>customMappingsMap.has(i) ? (customMappingsMap.get(i) || field) : field\<close>; the
  empty string is the only falsy name.\<close>

definition mappedName :: "(int \<rightharpoonup> string) \<Rightarrow> int \<Rightarrow> jvalue \<Rightarrow> jvalue" where
  "mappedName cm i field =
     (case cm i of
        Some n \<Rightarrow> if n \<noteq> [] then JStr n else field
      | None \<Rightarrow> field)"

text \<open>In the second branch every index read is in range, because \<open>selected\<close> has been
  filtered.\<close>

definition createFieldMappings ::
    "jvalue list \<Rightarrow> int list \<Rightarrow> CustomMapping list \<Rightarrow> FieldMappings" where
  "createFieldMappings originalFields exportIndices customMappings =
     (let cm = customMappingsMap customMappings in
      if length exportIndices = 0 then
        \<lparr> mapping =
            fold (\<lambda>(field, i) mp. AList.update (Number_toString i) (mappedName cm i field) mp)
              (zip originalFields (map int [0..<length originalFields])) [],
          exportFieldIndexes = map int [0..<length originalFields] \<rparr>
      else
        (let selected = filter (\<lambda>i. i \<ge> 0 \<and> i < int (length originalFields)) exportIndices in
         \<lparr> mapping =
             fold (\<lambda>i mp. AList.update (Number_toString i)
                            (mappedName cm i (originalFields ! nat i)) mp)
               selected [],
           exportFieldIndexes = selected \<rparr>))"

section \<open>Failures, remote calls and the trace of a run\<close>

text \<open>
  A message is kept as the pieces its template literal is built from: literal text, a
  value rendered by \<open>JSON.stringify\<close>, an integer, and a byte count rendered in megabytes
  by \<open>toFixed(2)\<close>. No rendering is modelled.
\<close>

datatype part = Txt string | Json jvalue | Num int | FixedMB nat

type_synonym message = "part list"

record httpErrorResponse =
  status :: int
  statusText :: string
  errorData :: jvalue

text \<open>What can be thrown: the \<open>AxiosError\<close> of a failed request (\<open>axios.isAxiosError\<close>
  holds of it alone), a plain \<open>Error\<close>, the \<open>TypeError\<close> of a call of a method a value
  has not got or of a value that cannot be converted to a string, and the two failures of the host that \<open>execute\<close> raises.\<close>

datatype error =
    AxiosError "string option" "httpErrorResponse option" string
  | Error message
  | TypeError message
  | NodeOperationError message
  | NodeApiError message int string

fun errorMessage :: "error \<Rightarrow> message" where
  "errorMessage (AxiosError code response msg) = [Txt msg]"
| "errorMessage (Error msg) = msg"
| "errorMessage (TypeError msg) = msg"
| "errorMessage (NodeOperationError msg) = msg"
| "errorMessage (NodeApiError msg statusCode statusTxt) = msg"

datatype stage = Download | Health | BaseUrl | Upload | Sheets | Fields | Parameters | Export

datatype body = FormFile "nat list" | JsonBody jvalue

datatype request = GET string | POST string body

record fileResponse =
  contentLength :: "string option"
  fileData :: "nat list"

datatype outcome = Failed error | FileOk fileResponse | DataOk jvalue

datatype httpCall = HttpCall stage request outcome

text \<open>The trace of a run lists, in order, the calls it made and the delays it waited
  (in milliseconds). An asynchronous function is a function of the trace so far that
  returns the value or the failure together with the extended trace.\<close>

datatype 'c event = Call 'c | Wait rat

type_synonym ('c, 'a) io = "'c event list \<Rightarrow> (error + 'a) \<times> 'c event list"

fun isCall :: "'c event \<Rightarrow> bool" where
  "isCall (Call c) = True"
| "isCall (Wait d) = False"

definition calls :: "'c event list \<Rightarrow> nat" where
  "calls t = length (filter isCall t)"

definition succeed :: "'a \<Rightarrow> ('c, 'a) io" where
  "succeed v t = (Inr v, t)"

definition throw :: "error \<Rightarrow> ('c, 'a) io" where
  "throw e t = (Inl e, t)"

definition andThen :: "('c, 'a) io \<Rightarrow> ('a \<Rightarrow> ('c, 'b) io) \<Rightarrow> ('c, 'b) io" where
  "andThen m f t = (case m t of (Inl e, t') \<Rightarrow> (Inl e, t') | (Inr v, t') \<Rightarrow> f v t')"

definition tryCatch :: "('c, 'a) io \<Rightarrow> (error \<Rightarrow> ('c, 'a) io) \<Rightarrow> ('c, 'a) io" where
  "tryCatch m handler t = (case m t of (Inl e, t') \<Rightarrow> handler e t' | (Inr v, t') \<Rightarrow> (Inr v, t'))"

text \<open>A string conversion in the course of a run, in a template literal or in a
  \<open>join\<close>: the string, or the \<open>TypeError\<close> thrown.\<close>

definition cannotConvert :: error where
  "cannotConvert = TypeError [Txt ''Cannot convert object to primitive value'']"

definition converted :: "string option \<Rightarrow> ('c, string) io" where
  "converted r = (case r of None \<Rightarrow> throw cannotConvert | Some s \<Rightarrow> succeed s)"

text \<open>
  The platform and the network, as the run meets them. The three requests answer by
  the number of calls made earlier in the run and by what is asked, so a service may
  fail first and succeed later. A response body that is missing is \<open>JNull\<close>. Request headers
  and timeouts are not part of the model.
\<close>

record world =
  newURL :: "string \<Rightarrow> string option"
  jsonParse :: "string \<Rightarrow> jvalue option"
  jsonStringify :: "jvalue \<Rightarrow> string"
  getFile :: "nat \<Rightarrow> string \<Rightarrow> error + fileResponse"
  getData :: "nat \<Rightarrow> string \<Rightarrow> error + jvalue"
  postData :: "nat \<Rightarrow> string \<Rightarrow> body \<Rightarrow> error + jvalue"

definition axios_getFile :: "world \<Rightarrow> stage \<Rightarrow> string \<Rightarrow> (httpCall, fileResponse) io" where
  "axios_getFile w st url t =
     (let r = getFile w (calls t) url
      in (r, t @ [Call (HttpCall st (GET url) (case r of Inl e \<Rightarrow> Failed e | Inr f \<Rightarrow> FileOk f))]))"

definition axios_get :: "world \<Rightarrow> stage \<Rightarrow> string \<Rightarrow> (httpCall, jvalue) io" where
  "axios_get w st url t =
     (let r = getData w (calls t) url
      in (r, t @ [Call (HttpCall st (GET url) (case r of Inl e \<Rightarrow> Failed e | Inr d \<Rightarrow> DataOk d))]))"

definition axios_post :: "world \<Rightarrow> stage \<Rightarrow> string \<Rightarrow> body \<Rightarrow> (httpCall, jvalue) io" where
  "axios_post w st url b t =
     (let r = postData w (calls t) url b
      in (r, t @ [Call (HttpCall st (POST url b) (case r of Inl e \<Rightarrow> Failed e | Inr d \<Rightarrow> DataOk d))]))"

section \<open>Retry Wrapper\<close>

text \<open>
  The \<open>for\<close> loop of \<open>withRetry\<close>, with its counter \<open>attempt\<close> and its variable
  \<open>lastError\<close>. The wait is \<open>delay * Math.pow(1.5, attempt - 1)\<close>, computed here in the
  rationals. What is caught is an error object, hence truthy, so \<open>lastError || new Error(...)\<close>
  is \<open>lastError\<close> once an attempt has failed.
\<close>

function withRetry_loop ::
    "('c, 'a) io \<Rightarrow> int \<Rightarrow> rat \<Rightarrow> string \<Rightarrow> nat \<Rightarrow> error option \<Rightarrow> ('c, 'a) io" where
  "withRetry_loop operation retries delay operationName attempt lastError t =
     (if int attempt \<le> retries then
        (case operation t of
           (Inr v, t') \<Rightarrow> (Inr v, t')
         | (Inl err, t') \<Rightarrow>
             withRetry_loop operation retries delay operationName (Suc attempt) (Some err)
               (if int attempt < retries
                then t' @ [Wait (delay * (3 / 2) ^ (attempt - 1))]
                else t'))
      else
        (case lastError of
           Some err \<Rightarrow> (Inl err, t)
         | None \<Rightarrow>
             (Inl (Error [Txt ''All '', Num retries, Txt '' retry attempts for '',
                          Txt operationName, Txt '' failed'']), t)))"
  by pat_completeness auto
termination
  by (relation "measure (\<lambda>(operation, retries, delay, operationName, attempt, lastError, t).
        nat (retries + 1 - int attempt))") auto

declare withRetry_loop.simps [simp del]

definition withRetry :: "('c, 'a) io \<Rightarrow> int \<Rightarrow> rat \<Rightarrow> string \<Rightarrow> ('c, 'a) io" where
  "withRetry operation retries delay operationName =
     withRetry_loop operation retries delay operationName 1 None"

text \<open>An operation given by the outcome of each of its invocations: the \<open>k\<close>-th call
  (counted from 1) returns or throws \<open>outcome k\<close>, and the trace records the call.\<close>

definition scripted :: "(nat \<Rightarrow> error + 'a) \<Rightarrow> (nat, 'a) io" where
  "scripted outcome t = (outcome (Suc (calls t)), t @ [Call (Suc (calls t))])"

text \<open>The trace the contract of the wrapper describes for a run that ends with attempt
  \<open>k\<close>: every earlier attempt \<open>j\<close> is followed by a wait of \<open>baseDelay * 1.5^(j-1)\<close>, and
  nothing follows the last attempt.\<close>

definition attemptsTrace :: "rat \<Rightarrow> nat \<Rightarrow> nat event list" where
  "attemptsTrace baseDelay k =
     concat (map (\<lambda>j. [Call j, Wait (baseDelay * (3 / 2) ^ (j - 1))]) [1..<k]) @ [Call k]"

section \<open>Conversion Client\<close>

definition statusCodePart :: "httpErrorResponse option \<Rightarrow> part" where
  "statusCodePart response =
     (case response of
        Some r \<Rightarrow> if status r \<noteq> 0 then Num (status r) else Txt ''unknown''
      | None \<Rightarrow> Txt ''unknown'')"

definition statusTextPart :: "httpErrorResponse option \<Rightarrow> part" where
  "statusTextPart response =
     (case response of
        Some r \<Rightarrow> if statusText r \<noteq> [] then Txt (statusText r) else Txt ''unknown''
      | None \<Rightarrow> Txt ''unknown'')"

definition responseDataPart :: "httpErrorResponse option \<Rightarrow> part" where
  "responseDataPart response =
     (case response of
        Some r \<Rightarrow> if truthy (errorData r) then Json (errorData r) else Txt ''no data''
      | None \<Rightarrow> Txt ''no data'')"

text \<open>\<open>verifyApiEndpoint\<close>: the health probe, then the base address when the probe
  fails; it never throws, and its caller only logs the answer.\<close>

definition verifyApiEndpoint :: "world \<Rightarrow> string \<Rightarrow> (httpCall, bool) io" where
  "verifyApiEndpoint w apiEndpoint =
     tryCatch
       (let baseEndpoint = stripTrailingSlashes apiEndpoint in
        andThen
          (tryCatch (axios_get w Health (baseEndpoint @ ''/health''))
             (\<lambda>err. axios_get w BaseUrl baseEndpoint))
          (\<lambda>response. succeed True))
       (\<lambda>err. succeed False)"

text \<open>The upload is wrapped in \<open>withRetry\<close> inside \<open>uploadFileAndGetDocumentId\<close>, with
  the literal arguments \<open>3\<close> and \<open>5000\<close>. The identifier is \<open>data.id || data.documentId\<close>;
  it is thrown away when both are falsy, and it is written to the log through a template
  literal before it is returned, which throws when it cannot be converted to a string.
  The function is declared to return a string, and the identifier is read only inside
  template literals from here on; what is returned here is the string the first of
  them has made of it.\<close>

definition uploadFileAndGetDocumentId :: "world \<Rightarrow> string \<Rightarrow> nat list \<Rightarrow> (httpCall, string) io" where
  "uploadFileAndGetDocumentId w apiEndpoint fileBytes =
     tryCatch
       (if apiEndpoint = [] then throw (Error [Txt ''API endpoint is empty or undefined''])
        else
          andThen (verifyApiEndpoint w apiEndpoint) (\<lambda>isApiAvailable.
            let baseEndpoint = stripTrailingSlashes apiEndpoint;
                uploadUrl = baseEndpoint @ ''/upload''
            in
            andThen
              (withRetry (axios_post w Upload uploadUrl (FormFile fileBytes)) 3 5000 ''file upload'')
              (\<lambda>uploadData.
                 if \<not> truthy uploadData then
                   throw (Error [Txt ''Failed to get document ID from conversion service: No response data received''])
                 else
                   (case jsOr (getProp uploadData ''id'') (getProp uploadData ''documentId'') of
                      Some documentId \<Rightarrow>
                        if truthy documentId then converted (jsToString documentId)
                        else throw (Error [Txt ''Failed to get document ID from conversion service: Response missing 'documentId' field. Response: '', Json uploadData])
                    | None \<Rightarrow>
                        throw (Error [Txt ''Failed to get document ID from conversion service: Response missing 'documentId' field. Response: '', Json uploadData])))))
       (\<lambda>err.
          case err of
            AxiosError code response msg \<Rightarrow>
              if code = Some ''ECONNABORTED'' then
                throw (Error [Txt ''Connection timed out when uploading file ('', FixedMB (length fileBytes),
                              Txt '' MB). Please increase the timeout value or check server capacity.''])
              else if code = Some ''ECONNREFUSED'' \<or> code = Some ''ENOTFOUND'' then
                throw (Error [Txt ''Cannot connect to the conversion service at '', Txt apiEndpoint,
                              Txt ''. Please verify the API URL is correct and the service is running.''])
              else if statusCodePart response = Num 413 then
                throw (Error [Txt ''File size ('', FixedMB (length fileBytes),
                              Txt '' MB) exceeds the conversion service limit. Please use a smaller file.''])
              else
                throw (Error [Txt ''Failed to upload file to conversion service: HTTP '',
                              statusCodePart response, Txt '' '', statusTextPart response,
                              Txt ''. URL: '', Txt apiEndpoint, Txt ''. Response: '', responseDataPart response])
          | _ \<Rightarrow>
              throw (Error ([Txt ''Error uploading file to conversion service: ''] @ errorMessage err @
                            [Txt ''. URL: '', Txt apiEndpoint])))"

definition httpFailure :: "string \<Rightarrow> httpErrorResponse option \<Rightarrow> error" where
  "httpFailure what response =
     Error [Txt what, Txt '': HTTP '', statusCodePart response, Txt '' '', statusTextPart response,
            Txt ''. Response: '', responseDataPart response]"

text \<open>\<open>getSheets\<close> writes the sheets to its log, joined by \<open>join(', ')\<close>, before it
  returns them; the statement stands inside the \<open>try\<close> block.\<close>

definition getSheets :: "world \<Rightarrow> string \<Rightarrow> string \<Rightarrow> (httpCall, jvalue list) io" where
  "getSheets w apiEndpoint documentId =
     tryCatch
       (let baseEndpoint = stripTrailingSlashes apiEndpoint in
        andThen
          (axios_get w Sheets (baseEndpoint @ ''/documents/'' @ documentId @ ''/sheets''))
          (\<lambda>responseData.
             if \<not> truthy responseData then
               throw (Error [Txt ''Failed to get sheet names: No response data received''])
             else
               andThen
                 (case responseData of
                    JArr sheets \<Rightarrow> succeed sheets
                  | _ \<Rightarrow>
                      (case getProp responseData ''sheets'' of
                         Some (JArr sheets) \<Rightarrow> succeed sheets
                       | _ \<Rightarrow> throw (Error [Txt ''Failed to get sheet names: Unexpected response format''])))
                 (\<lambda>sheets.
                    andThen (converted (joinValues '', '' sheets)) (\<lambda>logged. succeed sheets))))
       (\<lambda>err.
          case err of
            AxiosError code response msg \<Rightarrow> throw (httpFailure ''Failed to get sheets'' response)
          | _ \<Rightarrow> throw err)"

text \<open>The address of the list-fields request.\<close>

definition fieldsUrl :: "string \<Rightarrow> string \<Rightarrow> int \<Rightarrow> int \<Rightarrow> string" where
  "fieldsUrl apiEndpoint documentId sheetIdx headersIdx =
     stripTrailingSlashes apiEndpoint @ ''/documents/'' @ documentId @
       ''/fields?headers_index='' @ Number_toString headersIdx @
       ''&sheetIndex='' @ Number_toString sheetIdx"

text \<open>What \<open>getFields\<close> shows of one field in its log: a string trimmed; of an object
  or an array its \<open>name\<close>, \<open>id\<close> or \<open>title\<close>, the first that is truthy, else its JSON
  text; of \<open>null\<close>, a boolean or a number its string. The values shown are joined by \<open>join(', ')\<close>.\<close>

definition fieldDisplay :: "(jvalue \<Rightarrow> string) \<Rightarrow> jvalue \<Rightarrow> jvalue" where
  "fieldDisplay stringify field =
     (case field of
        JStr s \<Rightarrow> JStr (trim s)
      | JNull \<Rightarrow> JStr (trim ''null'')
      | JBool b \<Rightarrow> JStr (trim (if b then ''true'' else ''false''))
      | JNum n \<Rightarrow> JStr (trim (Number_toString n))
      | _ \<Rightarrow>
          (case jsOr (getProp field ''name'') (jsOr (getProp field ''id'') (getProp field ''title'')) of
             Some v \<Rightarrow> if truthy v then v else JStr (stringify field)
           | None \<Rightarrow> JStr (stringify field)))"

definition getFields :: "world \<Rightarrow> string \<Rightarrow> string \<Rightarrow> int \<Rightarrow> int \<Rightarrow> (httpCall, jvalue list) io" where
  "getFields w apiEndpoint documentId sheetIdx headersIdx =
     tryCatch
       (andThen
          (axios_get w Fields (fieldsUrl apiEndpoint documentId sheetIdx headersIdx))
          (\<lambda>responseData.
             if \<not> truthy responseData then
               throw (Error [Txt ''Failed to get fields: No response data received''])
             else
               andThen
                 (case responseData of
                    JArr fieldList \<Rightarrow> succeed fieldList
                  | _ \<Rightarrow>
                      (case getProp responseData ''fields'' of
                         Some (JArr fieldList) \<Rightarrow> succeed fieldList
                       | _ \<Rightarrow> throw (Error [Txt ''Failed to get fields: Unexpected response format''])))
                 (\<lambda>fieldList.
                    andThen
                      (converted (joinValues '', '' (map (fieldDisplay (jsonStringify w)) fieldList)))
                      (\<lambda>logged. succeed fieldList))))
       (\<lambda>err.
          case err of
            AxiosError code response msg \<Rightarrow> throw (httpFailure ''Failed to get fields'' response)
          | _ \<Rightarrow> throw err)"

text \<open>The name sent for one column: a string as it is; of an object or an array
  \<open>field.name || field.id || field.title || (field.original ? field.original :
  JSON.stringify(field))\<close>; of anything else \<open>String(field)\<close>. Then \<open>.trim()\<close> is called,
  which throws when the value chosen from an object is not a string.\<close>

definition fieldNameOf :: "(jvalue \<Rightarrow> string) \<Rightarrow> jvalue \<Rightarrow> error + string" where
  "fieldNameOf stringify field =
     (case field of
        JStr s \<Rightarrow> Inr (trim s)
      | _ \<Rightarrow>
          if truthy field \<and> typeofObject field then
            (case jsOr (getProp field ''name'')
                    (jsOr (getProp field ''id'')
                       (jsOr (getProp field ''title'')
                          (if truthy_opt (getProp field ''original'') then getProp field ''original''
                           else Some (JStr (stringify field))))) of
               Some (JStr s) \<Rightarrow> Inr (trim s)
             | _ \<Rightarrow> Inl (TypeError [Txt ''fieldName.trim is not a function'']))
          else (case jsToString field of
                  Some s \<Rightarrow> Inr (trim s)
                | None \<Rightarrow> Inl cannotConvert))"

fun buildFieldMapping ::
    "(jvalue \<Rightarrow> string) \<Rightarrow> (string \<times> jvalue) list \<Rightarrow> error + (string \<times> jvalue) list" where
  "buildFieldMapping stringify [] = Inr []"
| "buildFieldMapping stringify ((key, field) # rest) =
     (case fieldNameOf stringify field of
        Inl e \<Rightarrow> Inl e
      | Inr fieldName \<Rightarrow>
          (case buildFieldMapping stringify rest of
             Inl e \<Rightarrow> Inl e
           | Inr fieldMapping \<Rightarrow> Inr ((key, JStr fieldName) # fieldMapping)))"

definition setParameters ::
    "world \<Rightarrow> string \<Rightarrow> string \<Rightarrow> int \<Rightarrow> int \<Rightarrow> (string \<times> jvalue) list \<Rightarrow> int list \<Rightarrow> (httpCall, unit) io" where
  "setParameters w apiEndpoint documentId sheetIdx headersIdx mappingRecord exportIdxs =
     tryCatch
       (let exportFields = map (\<lambda>i. JStr (Number_toString i)) exportIdxs in
        case buildFieldMapping (jsonStringify w) mappingRecord of
          Inl e \<Rightarrow> throw e
        | Inr fieldMapping \<Rightarrow>
            (let payload = JObj [(''sheetIndex'', JNum sheetIdx), (''headers_index'', JNum headersIdx),
                                 (''mapping'', JObj fieldMapping), (''export_fields'', JArr exportFields)];
                 baseEndpoint = stripTrailingSlashes apiEndpoint
             in
             andThen
               (axios_post w Parameters
                  (baseEndpoint @ ''/documents/'' @ documentId @ ''/parameters'')
                  (JsonBody payload))
               (\<lambda>responseData.
                  if \<not> truthy responseData \<or> \<not> truthy_opt (getProp responseData ''success'') then
                    throw (Error [Txt ''Failed to set parameters: '', Json responseData])
                  else succeed ())))
       (\<lambda>err.
          case err of
            AxiosError code response msg \<Rightarrow> throw (httpFailure ''Failed to set parameters'' response)
          | _ \<Rightarrow> throw err)"

definition getExportedData :: "world \<Rightarrow> string \<Rightarrow> string \<Rightarrow> (httpCall, jvalue) io" where
  "getExportedData w apiEndpoint documentId =
     tryCatch
       (let baseEndpoint = stripTrailingSlashes apiEndpoint in
        andThen
          (axios_get w Export (baseEndpoint @ ''/documents/'' @ documentId @ ''/export''))
          (\<lambda>responseData.
             if \<not> truthy responseData then
               throw (Error [Txt ''Failed to get exported data: No response data received''])
             else succeed responseData))
       (\<lambda>err.
          case err of
            AxiosError code response msg \<Rightarrow> throw (httpFailure ''Failed to get exported data'' response)
          | _ \<Rightarrow> throw err)"

section \<open>Workflow Orchestrator\<close>

text \<open>The node parameters that decide the run. The authentication header, the timeout
  and the debug switch only reach request options and the log.\<close>

record nodeParameters =
  apiEndpoint :: string
  fileUrl :: string
  exportFields :: string
  fieldMapping :: string
  headersIndex :: int
  sheetIndex :: int
  advancedOptions :: bool
  retryAttempts :: int

record INodeExecutionData =
  json :: jvalue

text \<open>The size in megabytes: \<open>parseInt(header, 10) / (1024 * 1024)\<close> when the
  \<open>content-length\<close> header is truthy, else \<open>data.length / (1024 * 1024)\<close>. \<open>None\<close> is
  \<open>NaN\<close>. Dividing by a power of two is exact on doubles, so the rationals agree with
  the code on the comparison with 50.\<close>

definition fileSize :: "fileResponse \<Rightarrow> rat option" where
  "fileSize fileResp =
     (case contentLength fileResp of
        Some header \<Rightarrow>
          if header \<noteq> [] then map_option (\<lambda>n. of_int n / (1024 * 1024)) (parseInt header)
          else Some (of_nat (length (fileData fileResp)) / (1024 * 1024))
      | None \<Rightarrow> Some (of_nat (length (fileData fileResp)) / (1024 * 1024)))"

text \<open>\<open>fileSize > 50\<close>; a comparison with \<open>NaN\<close> is false.\<close>

definition exceedsLimit :: "rat option \<Rightarrow> bool" where
  "exceedsLimit sizeMB = (case sizeMB of Some mb \<Rightarrow> mb > 50 | None \<Rightarrow> False)"

text \<open>Step 7 of \<open>execute\<close>: one item for each element of an array, one item for
  anything else.\<close>

definition outputItems :: "jvalue \<Rightarrow> INodeExecutionData list" where
  "outputItems jsonData =
     (case jsonData of
        JArr records \<Rightarrow> map (\<lambda>r. \<lparr> json = r \<rparr>) records
      | _ \<Rightarrow> [\<lparr> json = jsonData \<rparr>])"

definition sizeLimitFailure :: error where
  "sizeLimitFailure = NodeOperationError [Txt ''File size exceeds 50 MB limit'']"

text \<open>The \<open>catch\<close> block of \<open>execute\<close>: a failure of axios becomes a \<open>NodeApiError\<close>
  with the message \<open>error.response?.data?.error || error.message\<close>, which is written to
  the log through a template literal first; anything else is thrown again as it is.\<close>

definition rethrow :: "error \<Rightarrow> (httpCall, 'a) io" where
  "rethrow err =
     (case err of
        AxiosError code response msg \<Rightarrow>
          (let statusCode = (case response of Some r \<Rightarrow> status r | None \<Rightarrow> 0);
               statusTxt = (case response of Some r \<Rightarrow> statusText r | None \<Rightarrow> ''Unknown Error'')
           in case (case response of
                      Some r \<Rightarrow>
                        (case getProp (errorData r) ''error'' of
                           Some v \<Rightarrow> if truthy v then Some v else None
                         | None \<Rightarrow> None)
                    | None \<Rightarrow> None) of
                Some v \<Rightarrow>
                  andThen (converted (jsToString v))
                    (\<lambda>logged. throw (NodeApiError [Json v] statusCode statusTxt))
              | None \<Rightarrow> throw (NodeApiError [Txt msg] statusCode statusTxt))
      | _ \<Rightarrow> throw err)"

text \<open>The list of the available sheets that \<open>execute\<close> writes to its log: a sheet that
  is a string by itself, an object or an array by \<open>String(sheet.name)\<close> when it has a
  truthy \<open>name\<close>, anything else by its position. \<open>None\<close> when a conversion throws.\<close>

fun availableSheets :: "nat \<Rightarrow> jvalue list \<Rightarrow> string list option" where
  "availableSheets idx [] = Some []"
| "availableSheets idx (sheet # rest) =
     (case (case sheet of
              JStr s \<Rightarrow> Some s
            | _ \<Rightarrow>
                if truthy sheet \<and> typeofObject sheet then
                  (case getProp sheet ''name'' of
                     Some v \<Rightarrow>
                       if truthy v then jsToString v
                       else Some (''Sheet '' @ Number_toString (int idx))
                   | None \<Rightarrow> Some (''Sheet '' @ Number_toString (int idx)))
                else Some (''Sheet '' @ Number_toString (int idx))) of
        None \<Rightarrow> None
      | Some sheetName \<Rightarrow>
          (case availableSheets (Suc idx) rest of
             None \<Rightarrow> None
           | Some labels \<Rightarrow> Some ((Number_toString (int idx) @ '': '' @ sheetName) # labels)))"

text \<open>Steps 2 to 7 of \<open>execute\<close>, the part of its \<open>try\<close> block that follows the size
  check: upload, sheets, fields, parameters, export, output, and the list of the
  available sheets written to the log in between.\<close>

definition convert ::
    "world \<Rightarrow> nodeParameters \<Rightarrow> string \<Rightarrow> int \<Rightarrow> int list \<Rightarrow> fileResponse \<Rightarrow>
     (httpCall, INodeExecutionData list) io" where
  "convert w p endpoint attempts exportFieldIndices fileResp =
     andThen (uploadFileAndGetDocumentId w endpoint (fileData fileResp))
     (\<lambda>documentId.
       andThen (withRetry (getSheets w endpoint documentId) attempts 2000 ''get sheets'')
       (\<lambda>sheets.
         if length sheets = 0 then
           throw (NodeOperationError [Txt ''No sheets found in the Excel file''])
         else if sheetIndex p < 0 \<or> sheetIndex p \<ge> int (length sheets) then
           throw (NodeOperationError
                    [Txt ''Invalid sheet index: '', Num (sheetIndex p), Txt ''. File has '',
                     Num (int (length sheets)), Txt '' sheets (indices 0-'',
                     Num (int (length sheets) - 1), Txt '')''])
         else
           andThen (converted (map_option (joinWith '', '') (availableSheets 0 sheets)))
           (\<lambda>available.
           andThen (withRetry (getFields w endpoint documentId (sheetIndex p) (headersIndex p))
                      attempts 2000 ''get fields'')
           (\<lambda>fieldList.
             if length fieldList = 0 then
               throw (NodeOperationError
                        [Txt ''No fields found in sheet at index '', Num (sheetIndex p),
                         Txt '', row '', Num (headersIndex p + 1)])
             else
               (let fieldMappings =
                      createFieldMappings fieldList exportFieldIndices
                        (parseFieldMapping (jsonParse w) (fieldMapping p))
                in
                andThen (withRetry
                           (setParameters w endpoint documentId (sheetIndex p) (headersIndex p)
                              (mapping fieldMappings) (exportFieldIndexes fieldMappings))
                           attempts 2000 ''set parameters'')
                (\<lambda>done.
                  andThen (withRetry (getExportedData w endpoint documentId)
                             attempts 2000 ''get exported data'')
                  (\<lambda>jsonData. succeed (outputItems jsonData))))))))"

text \<open>\<open>execute\<close>: the parameters, the two validations, the download (step 1) and the
  size check, then \<open>convert\<close>; \<open>rethrow\<close> is its \<open>catch\<close> block.\<close>

definition execute :: "world \<Rightarrow> nodeParameters \<Rightarrow> (httpCall, INodeExecutionData list) io" where
  "execute w p =
     (let attempts = (if advancedOptions p then retryAttempts p else 3);
          exportFieldIndices = parseExportFields (exportFields p)
      in
      tryCatch
        (if apiEndpoint p = [] then throw (NodeOperationError [Txt ''XLS Service URL is required''])
         else
           (let endpoint = stripTrailingSlashes (apiEndpoint p) in
            if \<not> isValidUrl (newURL w) endpoint then
              throw (NodeOperationError [Txt ''Invalid XLS Service URL: '', Txt endpoint])
            else if \<not> isValidUrl (newURL w) (fileUrl p) then
              throw (NodeOperationError [Txt ''Invalid File URL: '', Txt (fileUrl p)])
            else
              andThen (withRetry (axios_getFile w Download (fileUrl p)) attempts 5000 ''file download'')
              (\<lambda>fileResp.
                if exceedsLimit (fileSize fileResp) then throw sizeLimitFailure
                else convert w p endpoint attempts exportFieldIndices fileResp)))
        rethrow)"

text \<open>The number of calls of one stage in a trace.\<close>

fun isStage :: "stage \<Rightarrow> httpCall event \<Rightarrow> bool" where
  "isStage st (Call (HttpCall st' req out)) = (st' = st)"
| "isStage st (Wait d) = False"

definition stageCalls :: "stage \<Rightarrow> httpCall event list \<Rightarrow> nat" where
  "stageCalls st t = length (filter (isStage st) t)"

text \<open>Two ways of speaking about an asynchronous function: it only appends events that
  satisfy \<open>Q\<close> to the trace, whatever it returns or throws; and whenever it returns, the
  final trace and the value returned satisfy \<open>R\<close>.\<close>

definition appends :: "('c event \<Rightarrow> bool) \<Rightarrow> ('c, 'a) io \<Rightarrow> bool" where
  "appends Q m = (\<forall>t. \<exists>u. snd (m t) = t @ u \<and> list_all Q u)"

definition returnsOnly :: "('c event list \<Rightarrow> 'a \<Rightarrow> bool) \<Rightarrow> ('c, 'a) io \<Rightarrow> bool" where
  "returnsOnly R m = (\<forall>t v t'. m t = (Inr v, t') \<longrightarrow> R t' v)"

text \<open>The size the specification speaks of, in bytes: the \<open>content-length\<close> header where
  there is one (and it is not empty), else the number of bytes downloaded; \<open>None\<close> where
  the header is no number.\<close>

definition reportedBytes :: "fileResponse \<Rightarrow> int option" where
  "reportedBytes fileResp =
     (case contentLength fileResp of
        Some header \<Rightarrow> if header \<noteq> [] then parseInt header else Some (int (length (fileData fileResp)))
      | None \<Rightarrow> Some (int (length (fileData fileResp))))"

section \<open>The platform's URL parser on plain addresses\<close>

text \<open>
  The \<open>protocol\<close> of \<open>new URL(input)\<close>, following the URL Standard, on the addresses
  \<open>http://host[:port][tail]\<close> and \<open>https://host[:port][tail]\<close> of printable ASCII whose
  host is a plain lower-case DNS name: labels of letters, digits and inner hyphens, none
  starting with \<open>xn--\<close>, the last one not a number. There the standard reads the
  scheme, takes the authority up to the first \<open>/\<close>, \<open>?\<close>, \<open>#\<close> or backslash, splits a
  port of digits (possibly none) off at the colon, and parses the rest (path, query,
  fragment) without ever failing. On every other input this definition answers \<open>None\<close>,
  although the platform accepts more (credentials, IP literals, upper case, other
  schemes); it is evaluated only on addresses of the shape above.
\<close>

definition isLowerAlnum :: "char \<Rightarrow> bool" where
  "isLowerAlnum c = (isDigit c \<or> (97 \<le> (of_char c :: nat) \<and> (of_char c :: nat) \<le> 122))"

definition plainLabel :: "string \<Rightarrow> bool" where
  "plainLabel l =
     (l \<noteq> [] \<and> list_all (\<lambda>c. isLowerAlnum c \<or> c = CHR ''-'') l \<and>
      isLowerAlnum (hd l) \<and> isLowerAlnum (last l) \<and> \<not> prefix ''xn--'' l)"

definition plainHost :: "string \<Rightarrow> bool" where
  "plainHost host =
     (let labels = splitOn CHR ''.'' host
      in list_all plainLabel labels \<and> \<not> list_all isDigit (last labels) \<and> \<not> prefix ''0x'' (last labels))"

definition plainPort :: "string \<Rightarrow> bool" where
  "plainPort port = (list_all isDigit port \<and> digitsValue port \<le> 65535)"

definition URL_protocol :: "string \<Rightarrow> string option" where
  "URL_protocol input =
     (case (if prefix ''http://'' input then Some ''http''
            else if prefix ''https://'' input then Some ''https'' else None) of
        None \<Rightarrow> None
      | Some scheme \<Rightarrow>
          (let rest = drop (length scheme + 3) input;
               authority = takeWhile (\<lambda>c. c \<noteq> CHR ''/'' \<and> c \<noteq> CHR ''?'' \<and> c \<noteq> CHR ''#'' \<and>
                                         c \<noteq> CHR 0x5C) rest;
               host = takeWhile (\<lambda>c. c \<noteq> CHR '':'') authority;
               port = drop (length host + 1) authority
           in if list_all (\<lambda>c. 33 \<le> (of_char c :: nat) \<and> (of_char c :: nat) \<le> 126) input \<and>
                 plainHost host \<and> plainPort port
              then Some (scheme @ '':'') else None))"


section \<open>Example runs\<close>

text \<open>
  A conversion service that answers as in the end-to-end example of the specification:
  the upload returns the identifier \<open>67cc\<close>, the document has one sheet and the fields
  \<open>Model\<close>, \<open>Price\<close>, \<open>Description\<close>, and the export is two records. Every other address
  is not found. The file is four bytes long and is served with the \<open>content-length\<close>
  header given. \<open>JSON.parse\<close> and \<open>JSON.stringify\<close> are not reached in these runs (the
  field mapping parameter is empty and every field is a string).
\<close>

definition exampleExport :: jvalue where
  "exampleExport =
     JArr [JObj [(''Model'', JStr ''A''), (''Price'', JStr ''100'')],
           JObj [(''Model'', JStr ''B''), (''Price'', JStr ''200'')]]"

definition notFound :: error where
  "notFound = AxiosError (Some ''ERR_BAD_REQUEST'')
                (Some \<lparr> status = 404, statusText = ''Not Found'', errorData = JNull \<rparr>)
                ''Request failed with status code 404''"

definition exampleWorld :: "string option \<Rightarrow> world" where
  "exampleWorld header =
     \<lparr> newURL = URL_protocol,
       jsonParse = (\<lambda>s. None),
       jsonStringify = (\<lambda>v. []),
       getFile = (\<lambda>k url. Inr \<lparr> contentLength = header, fileData = [80, 75, 3, 4] \<rparr>),
       getData = (\<lambda>k url.
         if url = ''http://localhost:3000/api/health'' then Inr (JObj [(''status'', JStr ''ok'')])
         else if url = ''http://localhost:3000/api/documents/67cc/sheets''
           then Inr (JArr [JStr ''Sheet1''])
         else if url = ''http://localhost:3000/api/documents/67cc/fields?headers_index=0&sheetIndex=0''
           then Inr (JArr [JStr ''Model'', JStr ''Price'', JStr ''Description''])
         else if url = ''http://localhost:3000/api/documents/67cc/export''
           then Inr exampleExport
         else Inl notFound),
       postData = (\<lambda>k url b.
         if url = ''http://localhost:3000/api/upload'' then Inr (JObj [(''id'', JStr ''67cc'')])
         else if url = ''http://localhost:3000/api/documents/67cc/parameters''
           then Inr (JObj [(''success'', JBool True)])
         else Inl notFound) \<rparr>"

definition exampleParameters :: nodeParameters where
  "exampleParameters =
     \<lparr> apiEndpoint = ''http://localhost:3000/api/'',
       fileUrl = ''http://example.com/files/sample.xlsx'',
       exportFields = ''0,1'',
       fieldMapping = [],
       headersIndex = 0,
       sheetIndex = 0,
       advancedOptions = False,
       retryAttempts = 3 \<rparr>"

text \<open>The same service behind a connection that is reset until the run has made six
  requests and works from then on, and a run configured for five attempts. The download,
  the first request of the run, is served from elsewhere and succeeds at once.\<close>

definition connectionReset :: error where
  "connectionReset = AxiosError (Some ''ECONNRESET'') None ''socket hang up''"

definition recoveringWorld :: world where
  "recoveringWorld =
     (exampleWorld None)
       \<lparr> getData := (\<lambda>k url. if k < 6 then Inl connectionReset else getData (exampleWorld None) k url),
         postData := (\<lambda>k url b. if k < 6 then Inl connectionReset
                                 else postData (exampleWorld None) k url b) \<rparr>"

definition fiveAttempts :: nodeParameters where
  "fiveAttempts = exampleParameters \<lparr> advancedOptions := True, retryAttempts := 5 \<rparr>"

text \<open>The service of the example with a sheets address that always resets the connection.\<close>

definition noSheetsWorld :: world where
  "noSheetsWorld =
     (exampleWorld None)
       \<lparr> getData := (\<lambda>k url. if url = ''http://localhost:3000/api/documents/67cc/sheets''
                               then Inl connectionReset else getData (exampleWorld None) k url) \<rparr>"

text \<open>\<open>JSON.parse\<close> on the text of a field mapping whose second item has an \<open>index\<close>
  that is an object with a property \<open>toString\<close>. It is evaluated on that text only.\<close>

definition JSON_parse_example :: "string \<Rightarrow> jvalue option" where
  \<open>JSON_parse_example text =
     (if text = ''[{"index":0,"name":"a"},{"index":{"toString":0},"name":"b"}]''
      then Some (JArr [JObj [(''index'', JNum 0), (''name'', JStr ''a'')],
                       JObj [(''index'', JObj [(''toString'', JNum 0)]), (''name'', JStr ''b'')]])
      else None)\<close>

section \<open>Properties of the Field Mapper\<close>

subsection \<open>Decimal numerals\<close>

lemma of_char_digitChar: "d < 10 \<Longrightarrow> (of_char (digitChar d) :: nat) = 48 + d"
  by (simp add: digitChar_def)

lemma isDigit_digitChar: "d < 10 \<Longrightarrow> isDigit (digitChar d)"
  by (simp add: isDigit_def of_char_digitChar)

lemma natToString_digits: "list_all isDigit (natToString n)"
proof (induction n rule: natToString.induct)
  case (1 n)
  show ?case
  proof (cases "n < 10")
    case True
    then show ?thesis by (subst natToString.simps) (simp add: isDigit_digitChar)
  next
    case False
    with 1 show ?thesis by (subst natToString.simps) (simp add: isDigit_digitChar)
  qed
qed

lemma natToString_nonempty: "natToString n \<noteq> []"
  by (subst natToString.simps) simp

lemma digitsValue_snoc: "digitsValue (ds @ [c]) = 10 * digitsValue ds + (of_char c - 48)"
  by (simp add: digitsValue_def)

lemma digitsValue_natToString: "digitsValue (natToString n) = n"
proof (induction n rule: natToString.induct)
  case (1 n)
  show ?case
  proof (cases "n < 10")
    case True
    then show ?thesis
      by (subst natToString.simps) (simp add: digitsValue_def of_char_digitChar)
  next
    case False
    with 1 show ?thesis
      by (subst natToString.simps) (simp add: digitsValue_snoc of_char_digitChar)
  qed
qed

lemma isDigit_not_white: "isDigit c \<Longrightarrow> \<not> isWhiteSpace c"
  by (auto simp: isDigit_def isWhiteSpace_def)

lemma isDigit_not_sign: "isDigit c \<Longrightarrow> c \<noteq> CHR ''-'' \<and> c \<noteq> CHR ''+''"
  by (auto simp: isDigit_def)

lemma takeWhile_all: "list_all P xs \<Longrightarrow> takeWhile P xs = xs"
  by (induction xs) auto

lemma parseInt_digits:
  assumes "list_all isDigit ds" "ds \<noteq> []"
  shows "parseInt ds = Some (int (digitsValue ds))"
proof -
  obtain c cs where ds: "ds = c # cs" using assms(2) by (cases ds) auto
  with assms(1) have c: "isDigit c" by simp
  have "dropWhile isWhiteSpace ds = ds" using c ds isDigit_not_white by simp
  moreover have "hd ds \<noteq> CHR ''-''" "hd ds \<noteq> CHR ''+''" using c ds isDigit_not_sign by auto
  ultimately show ?thesis using assms
    by (simp add: parseInt_def Let_def takeWhile_all)
qed

lemma parseInt_minus_digits:
  assumes "list_all isDigit ds" "ds \<noteq> []"
  shows "parseInt (CHR ''-'' # ds) = Some (- int (digitsValue ds))"
  using assms by (simp add: parseInt_def Let_def takeWhile_all isWhiteSpace_def)

lemma parseInt_Number_toString: "parseInt (Number_toString i) = Some i"
  by (simp add: Number_toString_def parseInt_digits parseInt_minus_digits
      natToString_digits natToString_nonempty digitsValue_natToString)

lemma inj_Number_toString: "inj Number_toString"
  by (rule injI) (metis parseInt_Number_toString option.inject)

subsection \<open>The mapping as a fold over the selected indexes\<close>

lemma zip_positions:
  "zip fs (map int [0..<length fs]) = map (\<lambda>k. (fs ! k, int k)) [0..<length fs]"
  by (rule nth_equalityI) auto

lemma mapping_all_positions:
  "fold (\<lambda>(field, i) mp. AList.update (Number_toString i) (mappedName cm i field) mp)
        (zip fs (map int [0..<length fs])) m0 =
   fold (\<lambda>i mp. AList.update (Number_toString i) (mappedName cm i (fs ! nat i)) mp)
        (map int [0..<length fs]) m0"
  by (simp add: zip_positions fold_map comp_def)

lemma createFieldMappings_mapping:
  "mapping (createFieldMappings fs ei cms) =
     fold (\<lambda>i mp. AList.update (Number_toString i)
                    (mappedName (customMappingsMap cms) i (fs ! nat i)) mp)
       (exportFieldIndexes (createFieldMappings fs ei cms)) []"
  by (simp add: createFieldMappings_def Let_def mapping_all_positions)

lemma keys_fold_update:
  "fst ` set (fold (\<lambda>i mp. AList.update (f i) (g i) mp) xs al) = fst ` set al \<union> f ` set xs"
  by (induction xs arbitrary: al) (auto simp: AList.dom_update)

lemma lookup_fold_update:
  assumes "inj f"
  shows "map_of (fold (\<lambda>i mp. AList.update (f i) (g i) mp) xs al) (f i) =
           (if i \<in> set xs then Some (g i) else map_of al (f i))"
  using assms
proof (induction xs arbitrary: al)
  case Nil
  then show ?case by simp
next
  case (Cons x xs)
  then show ?case by (auto simp: inj_eq AList.update_conv')
qed

lemma createFieldMappings_lookup:
  "map_of (mapping (createFieldMappings fs ei cms)) (Number_toString i) =
     (if i \<in> set (exportFieldIndexes (createFieldMappings fs ei cms))
      then Some (mappedName (customMappingsMap cms) i (fs ! nat i)) else None)"
  by (simp add: createFieldMappings_mapping lookup_fold_update [OF inj_Number_toString])

lemma exportFieldIndexes_eq:
  "exportFieldIndexes (createFieldMappings fs ei cms) =
     (if ei = [] then map int [0..<length fs]
      else filter (\<lambda>i. 0 \<le> i \<and> i < int (length fs)) ei)"
  by (simp add: createFieldMappings_def Let_def)

lemma exportFieldIndexes_in_range:
  "i \<in> set (exportFieldIndexes (createFieldMappings fs ei cms)) \<Longrightarrow> 0 \<le> i \<and> i < int (length fs)"
  by (auto simp: createFieldMappings_def Let_def split: if_splits)


subsection \<open>Items of the field mapping parameter\<close>

lemma fieldMappingItem_name:
  "fieldMappingItem item = Kept m \<Longrightarrow> name m \<noteq> []"
  by (auto simp: fieldMappingItem_def typeofString_def
      split: if_splits option.splits jvalue.splits indexResult.splits)

lemma fieldMappingItems_names:
  "fieldMappingItems items = Some ms \<Longrightarrow> m \<in> set ms \<Longrightarrow> name m \<noteq> []"
proof (induction items arbitrary: ms)
  case Nil
  then show ?case by simp
next
  case (Cons item rest)
  then show ?case
    by (auto simp: fieldMappingItem_name split: itemResult.splits option.splits)
qed

lemma parseFieldMapping_names:
  assumes m: "m \<in> set (parseFieldMapping parse raw)"
  shows "name m \<noteq> []"
proof (cases "raw = []")
  case True
  with m show ?thesis by (simp add: parseFieldMapping_def)
next
  case False
  show ?thesis
  proof (cases "parse raw")
    case None
    with False m show ?thesis by (simp add: parseFieldMapping_def)
  next
    case (Some v)
    show ?thesis
    proof (cases v)
      case (JArr items)
      show ?thesis
      proof (cases "fieldMappingItems items")
        case None
        with False Some JArr m show ?thesis by (simp add: parseFieldMapping_def)
      next
        case (Some ms)
        with False \<open>parse raw = Some v\<close> JArr m have "m \<in> set ms"
          by (simp add: parseFieldMapping_def)
        with Some show ?thesis by (rule fieldMappingItems_names)
      qed
    qed (use False Some m in \<open>simp_all add: parseFieldMapping_def\<close>)
  qed
qed

lemma parseInt_undefined: "parseInt ''undefined'' = None"
  by (simp add: parseInt_def isWhiteSpace_def isDigit_def)

lemma itemIndex_JObj:
  "itemIndex (JObj kvs) =
     (case map_of kvs ''index'' of
        None \<Rightarrow> IndexNaN
      | Some (JNum n) \<Rightarrow> IndexIs n
      | Some v \<Rightarrow>
          (case jsToString v of
             None \<Rightarrow> IndexThrows
           | Some s \<Rightarrow> (case parseInt s of None \<Rightarrow> IndexNaN | Some i \<Rightarrow> IndexIs i)))"
  by (simp add: itemIndex_def parseIntOf_def parseInt_undefined
      split: option.splits jvalue.splits)

lemma fieldMappingItem_JObj:
  "fieldMappingItem (JObj kvs) =
     (case itemIndex (JObj kvs) of
        IndexThrows \<Rightarrow> Thrown
      | IndexNaN \<Rightarrow> Dropped
      | IndexIs i \<Rightarrow>
          (case map_of kvs ''name'' of
             Some (JStr s) \<Rightarrow> if s \<noteq> [] then Kept \<lparr> index = i, name = s \<rparr> else Dropped
           | _ \<Rightarrow> Dropped))"
  by (simp add: fieldMappingItem_def typeofObject_def typeofString_def
      split: indexResult.splits option.splits jvalue.splits)

lemma fieldMappingItem_cases:
  "fieldMappingItem item =
     (if indexUnreadable item then Thrown
      else if wellFormedItem item then Kept (overrideOf item) else Dropped)"
proof (cases item)
  case (JObj kvs)
  show ?thesis
  proof (cases "map_of kvs ''index''")
    case None
    then show ?thesis
      unfolding JObj
      by (simp add: fieldMappingItem_JObj itemIndex_JObj wellFormedItem_def indexUnreadable_def)
  next
    case (Some v)
    show ?thesis
    proof (cases "\<exists>n. v = JNum n")
      case True
      then obtain n where v: "v = JNum n" by blast
      show ?thesis
        unfolding JObj
        by (simp add: fieldMappingItem_JObj itemIndex_JObj wellFormedItem_def indexUnreadable_def
            overrideOf_def Some v split: option.splits jvalue.splits)
    next
      case False
      have idx: "itemIndex (JObj kvs) =
          (case jsToString v of
             None \<Rightarrow> IndexThrows
           | Some s \<Rightarrow> (case parseInt s of None \<Rightarrow> IndexNaN | Some i \<Rightarrow> IndexIs i))"
        using False by (cases v) (simp_all add: itemIndex_JObj Some)
      have unr: "indexUnreadable (JObj kvs) = (jsToString v = None)"
        using False by (cases v) (simp_all add: indexUnreadable_def Some)
      have wf: "wellFormedItem (JObj kvs) =
          ((case jsToString v of None \<Rightarrow> False
            | Some s \<Rightarrow> (case parseInt s of None \<Rightarrow> False | Some i \<Rightarrow> True)) \<and>
           (case map_of kvs ''name'' of Some (JStr s) \<Rightarrow> s \<noteq> [] | _ \<Rightarrow> False))"
        using False by (cases v) (simp_all add: wellFormedItem_def parseIntOf_def Some split: option.splits)
      have ov: "overrideOf (JObj kvs) =
          \<lparr> index = (case jsToString v of None \<Rightarrow> 0
                      | Some s \<Rightarrow> (case parseInt s of None \<Rightarrow> 0 | Some i \<Rightarrow> i)),
            name = (case map_of kvs ''name'' of Some (JStr s) \<Rightarrow> s | _ \<Rightarrow> []) \<rparr>"
        using False by (cases v) (simp_all add: overrideOf_def parseIntOf_def Some split: option.splits)
      show ?thesis
        unfolding JObj
        by (simp add: fieldMappingItem_JObj idx unr wf ov split: option.splits jvalue.splits)
    qed
  qed
next
  case (JArr xs)
  then show ?thesis
    by (simp add: fieldMappingItem_def wellFormedItem_def indexUnreadable_def itemIndex_def
      typeofObject_def parseInt_undefined)
qed (simp_all add: fieldMappingItem_def wellFormedItem_def indexUnreadable_def typeofObject_def)

lemma fieldMappingItems_eq:
  "fieldMappingItems items =
     (if list_ex indexUnreadable items then None
      else Some (map overrideOf (filter wellFormedItem items)))"
  by (induction items) (simp_all add: fieldMappingItem_cases)

lemma parseFieldMapping_eq:
  "parseFieldMapping parse s =
     (if s = [] then []
      else (case parse s of
              None \<Rightarrow> []
            | Some (JArr items) \<Rightarrow>
                if list_ex indexUnreadable items then []
                else map overrideOf (filter wellFormedItem items)
            | Some _ \<Rightarrow> []))"
  by (simp add: parseFieldMapping_def fieldMappingItems_eq split: option.splits jvalue.splits)

subsection \<open>The claims about the Field Mapper\<close>

text \<open>
  Claim C4. With no export index given, \<open>createFieldMappings\<close> selects every position
  \<open>0 .. length originalFields - 1\<close> in order. Otherwise it keeps, in the caller's order,
  exactly the given indexes that lie in \<open>[0, length originalFields)\<close>; an index outside
  that range is dropped and nothing is raised (the function is total). The overrides
  play no part in the selection.
\<close>

theorem createFieldMappings_exportFieldIndexes:
  "exportFieldIndexes (createFieldMappings originalFields exportIndices customMappings) =
     (if exportIndices = [] then map int [0..<length originalFields]
      else filter (\<lambda>i. 0 \<le> i \<and> i < int (length originalFields)) exportIndices)"
  by (rule exportFieldIndexes_eq)

theorem createFieldMappings_exportFieldIndexes_witness:
  "exportFieldIndexes (createFieldMappings [JStr ''name'', JStr ''email''] [0, 5] []) = [0]"
  using createFieldMappings_exportFieldIndexes
          [of "[JStr ''name'', JStr ''email'']" "[0, 5]" "[]"]
  by simp

text \<open>
  Claim C8. In the result of \<open>createFieldMappings\<close> every element of
  \<open>exportFieldIndexes\<close> is a valid position of \<open>originalFields\<close>, the keys of \<open>mapping\<close>
  are exactly the decimal strings of the elements of \<open>exportFieldIndexes\<close>, and these
  are the in-range indexes given, or all positions when none is given.
\<close>

theorem createFieldMappings_invariant:
  "(\<forall>i \<in> set (exportFieldIndexes (createFieldMappings originalFields exportIndices customMappings)).
       0 \<le> i \<and> i < int (length originalFields)) \<and>
   fst ` set (mapping (createFieldMappings originalFields exportIndices customMappings)) =
     Number_toString ` set (exportFieldIndexes (createFieldMappings originalFields exportIndices customMappings)) \<and>
   exportFieldIndexes (createFieldMappings originalFields exportIndices customMappings) =
     (if exportIndices = [] then map int [0..<length originalFields]
      else filter (\<lambda>i. 0 \<le> i \<and> i < int (length originalFields)) exportIndices)"
proof (intro conjI)
  show "\<forall>i \<in> set (exportFieldIndexes (createFieldMappings originalFields exportIndices customMappings)).
       0 \<le> i \<and> i < int (length originalFields)"
    using exportFieldIndexes_in_range by blast
  show "fst ` set (mapping (createFieldMappings originalFields exportIndices customMappings)) =
     Number_toString ` set (exportFieldIndexes (createFieldMappings originalFields exportIndices customMappings))"
    by (simp add: createFieldMappings_mapping keys_fold_update)
  show "exportFieldIndexes (createFieldMappings originalFields exportIndices customMappings) =
     (if exportIndices = [] then map int [0..<length originalFields]
      else filter (\<lambda>i. 0 \<le> i \<and> i < int (length originalFields)) exportIndices)"
    by (rule exportFieldIndexes_eq)
qed

theorem createFieldMappings_invariant_witness:
  "fst ` set (mapping (createFieldMappings [JStr ''name'', JStr ''email'', JStr ''phone'', JStr ''address'']
                 [0, 1, 2] [\<lparr> index = 2, name = ''phoneNumber'' \<rparr>])) = {''0'', ''1'', ''2''} \<and>
   exportFieldIndexes (createFieldMappings [JStr ''name'', JStr ''email'', JStr ''phone'', JStr ''address'']
                 [0, 1, 2] [\<lparr> index = 2, name = ''phoneNumber'' \<rparr>]) = [0, 1, 2]"
proof -
  let ?r = "createFieldMappings [JStr ''name'', JStr ''email'', JStr ''phone'', JStr ''address'']
                 [0, 1, 2] [\<lparr> index = 2, name = ''phoneNumber'' \<rparr>]"
  note inv = createFieldMappings_invariant
            [of "[JStr ''name'', JStr ''email'', JStr ''phone'', JStr ''address'']" "[0, 1, 2]"
                "[\<lparr> index = 2, name = ''phoneNumber'' \<rparr>]"]
  have e: "exportFieldIndexes ?r = [0, 1, 2]"
    using conjunct2 [OF conjunct2 [OF inv]] by simp
  have n: "Number_toString ` set [0, 1, 2] = {''0'', ''1'', ''2''}"
    by code_simp
  have "fst ` set (mapping ?r) = Number_toString ` set (exportFieldIndexes ?r)"
    by (rule conjunct1 [OF conjunct2 [OF inv]])
  then have k: "fst ` set (mapping ?r) = {''0'', ''1'', ''2''}"
    by (simp only: e n)
  show ?thesis using k e by (rule conjI)
qed

text \<open>
  Claim C9. When the override in force for a selected index \<open>i\<close> (the entry of
  \<open>customMappingsMap\<close> for \<open>i\<close>, which is the last override listed for \<open>i\<close>) has the
  empty name, \<open>mapping\<close> sends the key of \<open>i\<close> to the original field at position \<open>i\<close>;
  and no override that \<open>parseFieldMapping\<close> returns has the empty name, whatever the
  parameter string and whatever \<open>JSON.parse\<close> makes of it.
\<close>

theorem empty_override_ignored:
  "(customMappingsMap customMappings i = Some [] \<and>
      i \<in> set (exportFieldIndexes (createFieldMappings originalFields exportIndices customMappings))
    \<longrightarrow> map_of (mapping (createFieldMappings originalFields exportIndices customMappings))
          (Number_toString i) = Some (originalFields ! nat i)) \<and>
   (\<forall>m \<in> set (parseFieldMapping parse fieldMappingRaw). name m \<noteq> [])"
  by (simp add: createFieldMappings_lookup mappedName_def parseFieldMapping_names)

theorem empty_override_ignored_witness:
  \<open>map_of (mapping (createFieldMappings [JStr ''name'', JStr ''email''] [0, 1]
             [\<lparr> index = 1, name = [] \<rparr>])) ''1'' = Some (JStr ''email'') \<and>
   list_all (\<lambda>m. name m \<noteq> [])
     (parseFieldMapping
        (\<lambda>s. Some (JArr [JObj [(''index'', JNum 1), (''name'', JStr [])],
                          JObj [(''index'', JNum 0), (''name'', JStr ''n'')]]))
        ''[{"index":1,"name":""},{"index":0,"name":"n"}]'')\<close>
proof -
  note inst = empty_override_ignored
      [of "[\<lparr> index = 1, name = [] \<rparr>]" 1 "[JStr ''name'', JStr ''email'']" "[0, 1]"
          "\<lambda>s. Some (JArr [JObj [(''index'', JNum 1), (''name'', JStr [])],
                          JObj [(''index'', JNum 0), (''name'', JStr ''n'')]])"
          \<open>''[{"index":1,"name":""},{"index":0,"name":"n"}]''\<close>]
  have c: "customMappingsMap [\<lparr> index = 1, name = [] \<rparr>] 1 = Some []"
    by (simp add: customMappingsMap_def)
  have s: "1 \<in> set (exportFieldIndexes (createFieldMappings [JStr ''name'', JStr ''email''] [0, 1]
             [\<lparr> index = 1, name = [] \<rparr>]))"
    by (simp add: exportFieldIndexes_eq)
  have n: "Number_toString 1 = ''1''" by code_simp
  have a: "map_of (mapping (createFieldMappings [JStr ''name'', JStr ''email''] [0, 1]
             [\<lparr> index = 1, name = [] \<rparr>])) ''1'' = Some (JStr ''email'')"
    using conjunct1 [OF inst] c s by (simp add: n)
  have b: \<open>list_all (\<lambda>m. name m \<noteq> [])
     (parseFieldMapping
        (\<lambda>s. Some (JArr [JObj [(''index'', JNum 1), (''name'', JStr [])],
                          JObj [(''index'', JNum 0), (''name'', JStr ''n'')]]))
        ''[{"index":1,"name":""},{"index":0,"name":"n"}]'')\<close>
    using conjunct2 [OF inst] by (simp only: list_all_iff)
  show ?thesis using a b by (rule conjI)
qed

text \<open>
  An index may be listed in more than one override. Of the two overrides of index \<open>1\<close>
  below the first has the empty name, and the key \<open>1\<close> is mapped to the name of the
  second, not to the original field \<open>email\<close>.
\<close>

theorem later_override_wins:
  "map_of (mapping (createFieldMappings [JStr ''name'', JStr ''email''] [0, 1]
             [\<lparr> index = 1, name = [] \<rparr>, \<lparr> index = 1, name = ''x'' \<rparr>])) ''1'' = Some (JStr ''x'') \<and>
   [JStr ''name'', JStr ''email''] ! 1 \<noteq> JStr ''x''"
proof -
  have n: "Number_toString 1 = ''1''" by code_simp
  have "map_of (mapping (createFieldMappings [JStr ''name'', JStr ''email''] [0, 1]
             [\<lparr> index = 1, name = [] \<rparr>, \<lparr> index = 1, name = ''x'' \<rparr>])) (Number_toString 1) =
        Some (JStr ''x'')"
    by (simp add: createFieldMappings_lookup exportFieldIndexes_eq customMappingsMap_def
        mappedName_def)
  then show ?thesis by (simp add: n)
qed

section \<open>Properties of the field mapping parser\<close>

text \<open>
  Claim C10. \<open>parseFieldMapping\<close> is total: it returns the empty list for the empty
  string, for a string \<open>JSON.parse\<close> rejects and for a parsed value that is not an array.
  For an array it returns the empty list when the \<open>index\<close> of some object among the items
  is neither a number nor convertible to a string (the conversion throws, and whatever is
  thrown ends in the empty list); otherwise it returns, in order, exactly the items that
  are objects with a numeric or number-parseable \<open>index\<close> and a non-empty string \<open>name\<close>,
  each as its index and name, and drops every other item.
\<close>

theorem parseFieldMapping_total:
  "parseFieldMapping parse s =
     (if s = [] then []
      else (case parse s of
              None \<Rightarrow> []
            | Some (JArr items) \<Rightarrow>
                if list_ex indexUnreadable items then []
                else map overrideOf (filter wellFormedItem items)
            | Some _ \<Rightarrow> []))"
  by (rule parseFieldMapping_eq)

theorem parseFieldMapping_total_witness:
  \<open>parseFieldMapping
     (\<lambda>s. Some (JArr [JObj [(''index'', JNum 0), (''name'', JStr ''model'')],
                       JObj [(''index'', JStr ''3''), (''name'', JStr ''price'')],
                       JObj [(''index'', JNum 1), (''name'', JStr [])],
                       JObj [(''index'', JStr ''x''), (''name'', JStr ''bad'')],
                       JObj [(''name'', JStr ''noindex'')],
                       JNum 7, JNull, JArr []]))
     ''[{"index":0,"name":"model"},{"index":"3","name":"price"},{"index":1,"name":""},{"index":"x","name":"bad"},{"name":"noindex"},7,null,[]]''
   = [\<lparr> index = 0, name = ''model'' \<rparr>, \<lparr> index = 3, name = ''price'' \<rparr>] \<and>
   parseFieldMapping
     (\<lambda>s. Some (JArr [JObj [(''index'', JArr [JObj [(''toString'', JNull)]]), (''name'', JStr ''a'')]]))
     ''[{"index":[{"toString":null}],"name":"a"}]'' = [] \<and>
   parseFieldMapping (\<lambda>s. None) ''not json'' = [] \<and>
   parseFieldMapping (\<lambda>s. Some (JObj [(''index'', JNum 0), (''name'', JStr ''model'')]))
     ''{"index":0,"name":"model"}'' = [] \<and>
   parseFieldMapping (\<lambda>s. None) [] = []\<close>
proof -
  have p3: "parseInt ''3'' = Some 3" by code_simp
  have px: "parseInt ''x'' = None" by code_simp
  show ?thesis
    by (simp add: parseFieldMapping_total wellFormedItem_def overrideOf_def indexUnreadable_def
        parseIntOf_def p3 px)
qed

text \<open>
  The second item below has an \<open>index\<close> that cannot be converted to a string: an object
  with a property \<open>toString\<close> of its own. The first item is an object with a numeric
  \<open>index\<close> and a non-empty string \<open>name\<close>, and it is not returned.
\<close>

theorem parseFieldMapping_unreadable_index:
  \<open>parseFieldMapping JSON_parse_example
     ''[{"index":0,"name":"a"},{"index":{"toString":0},"name":"b"}]'' = [] \<and>
   JSON_parse_example ''[{"index":0,"name":"a"},{"index":{"toString":0},"name":"b"}]'' =
     Some (JArr [JObj [(''index'', JNum 0), (''name'', JStr ''a'')],
                 JObj [(''index'', JObj [(''toString'', JNum 0)]), (''name'', JStr ''b'')]]) \<and>
   filter wellFormedItem
     [JObj [(''index'', JNum 0), (''name'', JStr ''a'')],
      JObj [(''index'', JObj [(''toString'', JNum 0)]), (''name'', JStr ''b'')]] =
     [JObj [(''index'', JNum 0), (''name'', JStr ''a'')]]\<close>
  by (simp add: JSON_parse_example_def parseFieldMapping_def fieldMappingItem_def itemIndex_def
      parseIntOf_def typeofObject_def typeofString_def wellFormedItem_def)

section \<open>Properties of the URL Validator\<close>

lemmas URL_defs = URL_protocol_def plainHost_def plainLabel_def plainPort_def isLowerAlnum_def
  isDigit_def digitsValue_def Let_def

lemma URL_not_a_url: "URL_protocol ''http://not-a-url'' = Some ''http:''"
  by (simp add: URL_defs)

lemma URL_example_com: "URL_protocol ''http://example.com'' = Some ''http:''"
  by (simp add: URL_defs)

lemma URL_example_api: "URL_protocol ''https://example.com/api'' = Some ''https:''"
  by (simp add: URL_defs)

lemma URL_localhost: "URL_protocol ''http://localhost:3000/api'' = Some ''http:''"
  by (simp add: URL_defs)

lemma URL_sample: "URL_protocol ''http://example.com/files/sample.xlsx'' = Some ''http:''"
  by (simp add: URL_defs)

lemma isValidUrl_with_protocol:
  "prefix ''http://'' s \<or> prefix ''https://'' s \<Longrightarrow>
   isValidUrl parse s = (parse s = Some ''http:'' \<or> parse s = Some ''https:'')"
  by (auto simp: isValidUrl_def Let_def split: option.splits)

lemma isValidUrl_without_protocol:
  "\<not> prefix ''http://'' s \<Longrightarrow> \<not> prefix ''https://'' s \<Longrightarrow>
   isValidUrl parse s =
     (s \<noteq> [] \<and> (parse (''http://'' @ s) = Some ''http:'' \<or> parse (''http://'' @ s) = Some ''https:''))"
  by (auto simp: isValidUrl_def Let_def split: option.splits)

lemma hasScheme_http: "prefix ''http://'' s \<Longrightarrow> hasScheme s"
  by (auto simp: prefix_def hasScheme_def isAlpha_def isSchemeChar_def isDigit_def)

lemma hasScheme_https: "prefix ''https://'' s \<Longrightarrow> hasScheme s"
  by (auto simp: prefix_def hasScheme_def isAlpha_def isSchemeChar_def isDigit_def)

lemma no_scheme_not_a_url: "\<not> hasScheme ''not-a-url''"
  by (simp add: hasScheme_def isAlpha_def isSchemeChar_def isDigit_def)

text \<open>
  Claim C1, on the strings that carry the protocol \<open>http://\<close> or \<open>https://\<close> and on the
  strings without a scheme. A string of the first kind is valid exactly when it parses
  with the protocol \<open>http:\<close> or \<open>https:\<close>. A string without a scheme is valid exactly when
  it is not empty and parses, with \<open>http://\<close> put before it, with the protocol \<open>http:\<close> or
  \<open>https:\<close>. This holds for every parser, and a string on which the parser throws is not
  valid, so no exception escapes. With the platform's parser \<open>http://example.com\<close> and
  \<open>https://example.com/api\<close> are valid, the empty string is not, and \<open>not-a-url\<close>, which
  has no scheme, is valid, since \<open>http://not-a-url\<close> is a well-formed address.
\<close>

theorem isValidUrl_characterisation:
  "(prefix ''http://'' s \<or> prefix ''https://'' s \<longrightarrow>
      isValidUrl parse s = (parse s = Some ''http:'' \<or> parse s = Some ''https:'')) \<and>
   (\<not> hasScheme s \<longrightarrow>
      isValidUrl parse s =
        (s \<noteq> [] \<and>
         (parse (''http://'' @ s) = Some ''http:'' \<or> parse (''http://'' @ s) = Some ''https:''))) \<and>
   (parse s = None \<and> parse (''http://'' @ s) = None \<longrightarrow> isValidUrl parse s = False) \<and>
   isValidUrl URL_protocol ''http://example.com'' = True \<and>
   isValidUrl URL_protocol ''https://example.com/api'' = True \<and>
   isValidUrl URL_protocol [] = False \<and>
   isValidUrl URL_protocol ''not-a-url'' = True"
proof (intro conjI impI)
  assume "prefix ''http://'' s \<or> prefix ''https://'' s"
  then show "isValidUrl parse s = (parse s = Some ''http:'' \<or> parse s = Some ''https:'')"
    by (rule isValidUrl_with_protocol)
next
  assume "\<not> hasScheme s"
  then have "\<not> prefix ''http://'' s" "\<not> prefix ''https://'' s"
    using hasScheme_http hasScheme_https by blast+
  then show "isValidUrl parse s =
        (s \<noteq> [] \<and>
         (parse (''http://'' @ s) = Some ''http:'' \<or> parse (''http://'' @ s) = Some ''https:''))"
    by (rule isValidUrl_without_protocol)
next
  assume "parse s = None \<and> parse (''http://'' @ s) = None"
  then show "isValidUrl parse s = False"
    by (simp add: isValidUrl_def Let_def)
next
  show "isValidUrl URL_protocol ''http://example.com'' = True"
    by (simp add: isValidUrl_def URL_example_com)
  show "isValidUrl URL_protocol ''https://example.com/api'' = True"
    by (simp add: isValidUrl_def URL_example_api)
  show "isValidUrl URL_protocol [] = False"
    by (simp add: isValidUrl_def)
  show "isValidUrl URL_protocol ''not-a-url'' = True"
    by (simp add: isValidUrl_def URL_not_a_url)
qed

theorem isValidUrl_characterisation_witness:
  "(prefix ''http://'' ''http://example.com'' \<and>
      isValidUrl URL_protocol ''http://example.com'' = True) \<and>
   (\<not> hasScheme ''not-a-url'' \<and> isValidUrl URL_protocol ''not-a-url'' = True) \<and>
   ((\<lambda>u. None :: string option) ''%%'' = None \<and> isValidUrl (\<lambda>u. None) ''%%'' = False)"
proof -
  note a = isValidUrl_characterisation [of "''http://example.com''" URL_protocol]
  note b = isValidUrl_characterisation [of "''not-a-url''" URL_protocol]
  note c = isValidUrl_characterisation [of "''%%''" "\<lambda>u. None"]
  have 1: "prefix ''http://'' ''http://example.com'' \<and>
      isValidUrl URL_protocol ''http://example.com'' = True"
    using conjunct1 [OF a] by (simp add: URL_example_com)
  have 2: "\<not> hasScheme ''not-a-url'' \<and> isValidUrl URL_protocol ''not-a-url'' = True"
    using conjunct1 [OF conjunct2 [OF b]] no_scheme_not_a_url by (simp add: URL_not_a_url)
  have 3: "(\<lambda>u. None :: string option) ''%%'' = None \<and> isValidUrl (\<lambda>u. None) ''%%'' = False"
    using conjunct1 [OF conjunct2 [OF conjunct2 [OF c]]] by simp
  show ?thesis using 1 2 3 by blast
qed

text \<open>
  The claim has \<open>isValidUrl("not-a-url") = false\<close>. The string has no scheme, so
  \<open>http://\<close> is put before it, and \<open>http://not-a-url\<close> parses with the host \<open>not-a-url\<close>.
\<close>

theorem isValidUrl_not_a_url: "isValidUrl URL_protocol ''not-a-url'' \<noteq> False"
  by (simp add: isValidUrl_def URL_not_a_url)

section \<open>Properties of the list-fields request\<close>

lemma Number_toString_0: "Number_toString 0 = ''0''"
  by code_simp

lemma Number_toString_1: "Number_toString 1 = ''1''"
  by code_simp

lemma strip_example: "stripTrailingSlashes ''http://localhost:3000/api/'' = ''http://localhost:3000/api''"
  by (simp add: stripTrailingSlashes_def)

lemma strip_example': "stripTrailingSlashes ''http://localhost:3000/api'' = ''http://localhost:3000/api''"
  by (simp add: stripTrailingSlashes_def)

lemma axios_get_trace:
  "snd (axios_get w st url t) =
     t @ [Call (HttpCall st (GET url)
            (case getData w (calls t) url of Inl e \<Rightarrow> Failed e | Inr d \<Rightarrow> DataOk d))]"
  by (simp add: axios_get_def Let_def)

lemma snd_tryCatch_throw:
  "snd (tryCatch m (\<lambda>err. case err of AxiosError code response msg \<Rightarrow> throw (f response) | _ \<Rightarrow> throw err) t) = snd (m t)"
  by (auto simp: tryCatch_def throw_def split: prod.splits sum.splits error.splits)

lemma snd_andThen_pure:
  assumes "\<And>v t'. snd (f v t') = t'"
  shows "snd (andThen m f t) = snd (m t)"
  using assms by (auto simp: andThen_def split: prod.splits sum.splits)

text \<open>
  Claim C6, as the code has it. \<open>getFields\<close> issues exactly one request, a \<open>GET\<close> of
  \<open>{base}/documents/{id}/fields\<close> whose query carries the zero-based headers row index
  under the name \<open>headers_index\<close> and the sheet index under the name \<open>sheetIndex\<close>,
  \<open>{base}\<close> being the endpoint without its trailing slashes.
\<close>

theorem getFields_request:
  "snd (getFields w endpoint documentId sheetIdx headersIdx t) =
     t @ [Call (HttpCall Fields
            (GET (stripTrailingSlashes endpoint @ ''/documents/'' @ documentId @
                  ''/fields?headers_index='' @ Number_toString headersIdx @
                  ''&sheetIndex='' @ Number_toString sheetIdx))
            (case getData w (calls t)
                    (stripTrailingSlashes endpoint @ ''/documents/'' @ documentId @
                     ''/fields?headers_index='' @ Number_toString headersIdx @
                     ''&sheetIndex='' @ Number_toString sheetIdx) of
               Inl e \<Rightarrow> Failed e | Inr d \<Rightarrow> DataOk d))]"
proof -
  have "snd (getFields w endpoint documentId sheetIdx headersIdx t) =
        snd (axios_get w Fields (fieldsUrl endpoint documentId sheetIdx headersIdx) t)"
    unfolding getFields_def snd_tryCatch_throw
    by (rule snd_andThen_pure)
       (auto simp: throw_def succeed_def andThen_def converted_def
          split: jvalue.splits option.splits prod.splits sum.splits)
  then show ?thesis by (simp add: axios_get_trace fieldsUrl_def)
qed

theorem getFields_request_witness:
  "snd (getFields (exampleWorld None) ''http://localhost:3000/api/'' ''67cc'' 0 0 []) =
     [Call (HttpCall Fields
        (GET ''http://localhost:3000/api/documents/67cc/fields?headers_index=0&sheetIndex=0'')
        (DataOk (JArr [JStr ''Model'', JStr ''Price'', JStr ''Description''])))]"
  using getFields_request [of "exampleWorld None" "''http://localhost:3000/api/''" "''67cc''" 0 0 "[]"]
  by (simp add: Number_toString_0 strip_example exampleWorld_def calls_def)

text \<open>
  The claim as the specification states it names the first parameter \<open>headersIndex\<close>;
  the address the code builds for headers row 1 of sheet 0 is not the one with that name.
\<close>

theorem fieldsUrl_headersIndex_counterexample:
  "fieldsUrl ''http://localhost:3000/api'' ''67cc'' 0 1 \<noteq>
     ''http://localhost:3000/api/documents/67cc/fields?headersIndex=1&sheetIndex=0''"
  by (simp add: fieldsUrl_def strip_example' Number_toString_0 Number_toString_1)

section \<open>Properties of the Retry Wrapper\<close>

lemma calls_snoc_Call [simp]: "calls (t @ [Call c]) = Suc (calls t)"
  by (simp add: calls_def)

lemma calls_snoc_Wait [simp]: "calls (t @ [Wait d]) = calls t"
  by (simp add: calls_def)

lemma calls_append: "calls (t @ u) = calls t + calls u"
  by (simp add: calls_def)

lemma calls_Nil [simp]: "calls [] = 0"
  by (simp add: calls_def)

lemma scripted_at:
  "1 \<le> a \<Longrightarrow> calls t = a - 1 \<Longrightarrow> scripted outcome t = (outcome a, t @ [Call a])"
  by (simp add: scripted_def)

lemma retry_succeeds_at:
  assumes "a \<le> k" "int k \<le> retries" "1 \<le> a" "calls t = a - 1"
    and "\<forall>j. a \<le> j \<and> j < k \<longrightarrow> isl (outcome j)" "outcome k = Inr v"
  shows "withRetry_loop (scripted outcome) retries delay nm a le t =
           (Inr v, t @ concat (map (\<lambda>j. [Call j, Wait (delay * (3 / 2) ^ (j - 1))]) [a..<k]) @ [Call k])"
  using assms
proof (induction "k - a" arbitrary: a t le)
  case 0
  then have ak: "a = k" by simp
  show ?case
    using 0 unfolding ak
    by (subst withRetry_loop.simps) (simp add: scripted_at)
next
  case (Suc n)
  then have lt: "a < k" by simp
  with Suc.prems obtain e where e: "outcome a = Inl e"
    by (metis isl_def order_refl)
  let ?t' = "(t @ [Call a]) @ [Wait (delay * (3 / 2) ^ (a - 1))]"
  have step: "withRetry_loop (scripted outcome) retries delay nm a le t =
              withRetry_loop (scripted outcome) retries delay nm (Suc a) (Some e) ?t'"
    using lt Suc.prems e
    by (subst withRetry_loop.simps) (simp add: scripted_at)
  have "withRetry_loop (scripted outcome) retries delay nm (Suc a) (Some e) ?t' =
        (Inr v, ?t' @ concat (map (\<lambda>j. [Call j, Wait (delay * (3 / 2) ^ (j - 1))]) [Suc a..<k]) @ [Call k])"
  proof (rule Suc.hyps(1))
    show "n = k - Suc a" using Suc.hyps(2) by simp
    show "Suc a \<le> k" using lt by simp
    show "int k \<le> retries" by (rule Suc.prems(2))
    show "1 \<le> Suc a" by simp
    show "calls ?t' = Suc a - 1" using Suc.prems by (simp add: calls_def)
    show "\<forall>j. Suc a \<le> j \<and> j < k \<longrightarrow> isl (outcome j)" using Suc.prems(5) by simp
    show "outcome k = Inr v" by (rule Suc.prems(6))
  qed
  then show ?case
    using lt by (simp add: step upt_conv_Cons)
qed

lemma retry_exhausted:
  assumes "1 \<le> a" "int a \<le> retries" "calls t = a - 1"
    and "\<forall>j. a \<le> j \<and> int j \<le> retries \<longrightarrow> isl (outcome j)"
  shows "withRetry_loop (scripted outcome) retries delay nm a le t =
           (outcome (nat retries),
            t @ concat (map (\<lambda>j. [Call j, Wait (delay * (3 / 2) ^ (j - 1))]) [a..<nat retries]) @
              [Call (nat retries)])"
  using assms
proof (induction "nat retries - a" arbitrary: a t le)
  case 0
  then have ar: "nat retries = a" by simp
  with 0 have ra: "retries = int a" by simp
  from 0 obtain e where e: "outcome a = Inl e"
    by (metis isl_def order_refl)
  have "withRetry_loop (scripted outcome) retries delay nm a le t =
        withRetry_loop (scripted outcome) retries delay nm (Suc a) (Some e) (t @ [Call a])"
    using 0(2,4) e unfolding ra by (subst withRetry_loop.simps) (simp add: scripted_at)
  also have "\<dots> = (Inl e, t @ [Call a])"
    unfolding ra by (subst withRetry_loop.simps) simp
  finally show ?case by (simp add: ar e)
next
  case (Suc n)
  then have lt: "int a < retries" by simp
  from Suc.prems obtain e where e: "outcome a = Inl e"
    by (metis isl_def order_refl)
  let ?t' = "(t @ [Call a]) @ [Wait (delay * (3 / 2) ^ (a - 1))]"
  have step: "withRetry_loop (scripted outcome) retries delay nm a le t =
              withRetry_loop (scripted outcome) retries delay nm (Suc a) (Some e) ?t'"
    using lt Suc.prems e
    by (subst withRetry_loop.simps) (simp add: scripted_at)
  have "withRetry_loop (scripted outcome) retries delay nm (Suc a) (Some e) ?t' =
        (outcome (nat retries),
         ?t' @ concat (map (\<lambda>j. [Call j, Wait (delay * (3 / 2) ^ (j - 1))]) [Suc a..<nat retries]) @
           [Call (nat retries)])"
  proof (rule Suc.hyps(1))
    show "n = nat retries - Suc a" using Suc.hyps(2) by simp
    show "1 \<le> Suc a" by simp
    show "int (Suc a) \<le> retries" using lt by simp
    show "calls ?t' = Suc a - 1" using Suc.prems by (simp add: calls_def)
    show "\<forall>j. Suc a \<le> j \<and> int j \<le> retries \<longrightarrow> isl (outcome j)" using Suc.prems(4) by simp
  qed
  moreover have "a < nat retries" using lt by simp
  ultimately show ?case
    by (simp add: step upt_conv_Cons)
qed

lemma calls_attemptsTrace_aux:
  "calls (concat (map (\<lambda>j. [Call j, Wait (f j)]) js)) = length js"
  by (induction js) (simp_all add: calls_def)

lemma calls_single: "calls [Call c] = 1"
  by (simp add: calls_def)

lemma calls_attemptsTrace: "1 \<le> k \<Longrightarrow> calls (attemptsTrace d k) = k"
  by (simp add: attemptsTrace_def calls_append calls_attemptsTrace_aux calls_single)

lemma withRetry_first_success:
  assumes "1 \<le> k" "int k \<le> retries" "\<forall>j. 1 \<le> j \<and> j < k \<longrightarrow> isl (outcome j)" "outcome k = Inr v"
  shows "withRetry (scripted outcome) retries delay nm [] = (Inr v, attemptsTrace delay k)"
  using retry_succeeds_at [of 1 k retries "[]" outcome v delay nm None] assms
  by (simp add: withRetry_def attemptsTrace_def)

lemma withRetry_all_fail:
  assumes "1 \<le> retries" "\<forall>j. 1 \<le> j \<and> int j \<le> retries \<longrightarrow> isl (outcome j)"
  shows "withRetry (scripted outcome) retries delay nm [] =
           (outcome (nat retries), attemptsTrace delay (nat retries))"
  using retry_exhausted [of 1 retries "[]" outcome delay nm None] assms
  by (simp add: withRetry_def attemptsTrace_def)

lemma withRetry_calls_bound:
  assumes "1 \<le> retries"
  shows "calls (snd (withRetry (scripted outcome) retries delay nm [])) \<le> nat retries"
proof (cases "\<forall>j. 1 \<le> j \<and> int j \<le> retries \<longrightarrow> isl (outcome j)")
  case True
  then show ?thesis
    using assms by (simp add: withRetry_all_fail calls_attemptsTrace)
next
  case False
  define P where "P = (\<lambda>j. 1 \<le> j \<and> int j \<le> retries \<and> \<not> isl (outcome j))"
  from False have ex: "\<exists>j. P j" by (auto simp: P_def)
  define k where "k = (LEAST j. P j)"
  have Pk: "P k" unfolding k_def using ex by (auto intro: LeastI)
  have least: "\<And>j. j < k \<Longrightarrow> \<not> P j" unfolding k_def by (rule not_less_Least)
  obtain v where v: "outcome k = Inr v"
    using Pk by (cases "outcome k") (auto simp: P_def)
  have fails: "\<forall>j. 1 \<le> j \<and> j < k \<longrightarrow> isl (outcome j)"
  proof (intro allI impI)
    fix j assume j: "1 \<le> j \<and> j < k"
    then have "\<not> P j" using least by simp
    moreover have "int j \<le> retries" using j Pk by (simp add: P_def)
    ultimately show "isl (outcome j)" using j by (simp add: P_def)
  qed
  have "withRetry (scripted outcome) retries delay nm [] = (Inr v, attemptsTrace delay k)"
    using Pk fails v by (intro withRetry_first_success) (simp_all add: P_def)
  moreover have "k \<le> nat retries" using Pk by (simp add: P_def le_nat_iff)
  moreover have "1 \<le> k" using Pk by (simp add: P_def)
  ultimately show ?thesis
    by (simp add: calls_attemptsTrace)
qed

text \<open>
  Claim C3. Let an operation be given by the outcomes of its successive invocations and
  let \<open>retries\<close> be at least 1. Then \<open>withRetry\<close> invokes the operation at most \<open>retries\<close>
  times. When the first \<open>k - 1\<close> invocations fail and invocation \<open>k\<close>, with \<open>k\<close> at most
  \<open>retries\<close>, succeeds with \<open>v\<close>, it returns \<open>v\<close>, and its trace is attempt 1, a wait of
  \<open>delay\<close>, attempt 2, a wait of \<open>delay * 1.5\<close>, and so on up to attempt \<open>k\<close>: after each
  failed attempt \<open>j\<close> it has waited \<open>delay * 1.5^(j-1)\<close>, and it has not waited after the
  last one. When all \<open>retries\<close> invocations fail, the result is the very failure of the
  last invocation, after the same waits between the attempts and none after the last.
  The waits are computed in the rationals.
\<close>

theorem withRetry_contract:
  "1 \<le> retries \<Longrightarrow>
   calls (snd (withRetry (scripted outcome) retries delay nm [])) \<le> nat retries \<and>
   (\<forall>k v. 1 \<le> k \<and> int k \<le> retries \<and> (\<forall>j. 1 \<le> j \<and> j < k \<longrightarrow> isl (outcome j)) \<and>
          outcome k = Inr v \<longrightarrow>
      withRetry (scripted outcome) retries delay nm [] = (Inr v, attemptsTrace delay k)) \<and>
   ((\<forall>j. 1 \<le> j \<and> int j \<le> retries \<longrightarrow> isl (outcome j)) \<longrightarrow>
      withRetry (scripted outcome) retries delay nm [] =
        (outcome (nat retries), attemptsTrace delay (nat retries)))"
proof (intro impI conjI allI)
  assume r: "1 \<le> retries"
  show "calls (snd (withRetry (scripted outcome) retries delay nm [])) \<le> nat retries"
    using r by (rule withRetry_calls_bound)
  show "withRetry (scripted outcome) retries delay nm [] = (Inr v, attemptsTrace delay k)"
    if "1 \<le> k \<and> int k \<le> retries \<and> (\<forall>j. 1 \<le> j \<and> j < k \<longrightarrow> isl (outcome j)) \<and> outcome k = Inr v"
    for k v
    using that by (intro withRetry_first_success) simp_all
  show "withRetry (scripted outcome) retries delay nm [] =
        (outcome (nat retries), attemptsTrace delay (nat retries))"
    if "\<forall>j. 1 \<le> j \<and> int j \<le> retries \<longrightarrow> isl (outcome j)"
    using r that by (rule withRetry_all_fail)
qed

theorem withRetry_contract_witness:
  "withRetry (scripted (\<lambda>k. if k < 3 then Inl (Error [Txt ''refused'', Num (int k)]) else Inr (JNum 7)))
     3 2000 ''get sheets'' [] =
     (Inr (JNum 7), [Call 1, Wait 2000, Call 2, Wait 3000, Call 3]) \<and>
   withRetry (scripted (\<lambda>k. (Inl (Error [Txt ''refused'', Num (int k)]) :: error + jvalue)))
     3 2000 ''get sheets'' [] =
     (Inl (Error [Txt ''refused'', Num 3]), [Call 1, Wait 2000, Call 2, Wait 3000, Call 3])"
proof -
  let ?o1 = "\<lambda>k::nat. if k < 3 then Inl (Error [Txt ''refused'', Num (int k)]) else (Inr (JNum 7) :: error + jvalue)"
  let ?o2 = "\<lambda>k::nat. (Inl (Error [Txt ''refused'', Num (int k)]) :: error + jvalue)"
  have t: "attemptsTrace 2000 3 = [Call 1, Wait 2000, Call 2, Wait 3000, Call 3]"
    by (simp add: attemptsTrace_def upt_rec)
  have r: "(1::int) \<le> 3" by simp
  note c1 = withRetry_contract [of 3 ?o1 2000 "''get sheets''", OF r]
  note c2 = withRetry_contract [of 3 ?o2 2000 "''get sheets''", OF r]
  have h1: "1 \<le> (3::nat) \<and> int 3 \<le> 3 \<and> (\<forall>j. 1 \<le> j \<and> j < 3 \<longrightarrow> isl (?o1 j)) \<and> ?o1 3 = Inr (JNum 7)"
    by simp
  have a: "withRetry (scripted ?o1) 3 2000 ''get sheets'' [] = (Inr (JNum 7), attemptsTrace 2000 3)"
    using conjunct1 [OF conjunct2 [OF c1]] h1 by blast
  have h2: "\<forall>j. 1 \<le> j \<and> int j \<le> 3 \<longrightarrow> isl (?o2 j)" by simp
  have b: "withRetry (scripted ?o2) 3 2000 ''get sheets'' [] = (?o2 (nat 3), attemptsTrace 2000 (nat 3))"
    using conjunct2 [OF conjunct2 [OF c2]] h2 by blast
  have n3: "nat 3 = 3" by simp
  show ?thesis using a b unfolding t n3 by simp
qed

section \<open>Properties of the Workflow Orchestrator\<close>

subsection \<open>The example run\<close>

lemma parseExportFields_01: "parseExportFields ''0,1'' = [0, 1]"
  by code_simp

lemma parseInt_2048: "parseInt ''2048'' = Some 2048"
  by code_simp

lemma valid_endpoint: "isValidUrl URL_protocol ''http://localhost:3000/api''"
  by (simp add: isValidUrl_def URL_localhost)

lemma valid_file: "isValidUrl URL_protocol ''http://example.com/files/sample.xlsx''"
  by (simp add: isValidUrl_def URL_sample)

lemma trim_plain: "trim ''Model'' = ''Model''" "trim ''Price'' = ''Price''"
  by code_simp+

lemmas run_defs = execute_def convert_def rethrow_def Let_def tryCatch_def andThen_def succeed_def throw_def
  withRetry_def withRetry_loop.simps axios_getFile_def axios_get_def axios_post_def calls_def
  uploadFileAndGetDocumentId_def verifyApiEndpoint_def getSheets_def getFields_def fieldsUrl_def
  setParameters_def getExportedData_def createFieldMappings_def customMappingsMap_def mappedName_def
  parseFieldMapping_def fieldNameOf_def jsOr_def fileSize_def exceedsLimit_def outputItems_def
  exampleExport_def converted_def fieldDisplay_def

lemma example_run:
  "execute (exampleWorld (Some ''2048'')) exampleParameters [] =
     (Inr [\<lparr> json = JObj [(''Model'', JStr ''A''), (''Price'', JStr ''100'')] \<rparr>,
           \<lparr> json = JObj [(''Model'', JStr ''B''), (''Price'', JStr ''200'')] \<rparr>],
      [Call (HttpCall Download (GET ''http://example.com/files/sample.xlsx'')
               (FileOk \<lparr> contentLength = Some ''2048'', fileData = [80, 75, 3, 4] \<rparr>)),
       Call (HttpCall Health (GET ''http://localhost:3000/api/health'')
               (DataOk (JObj [(''status'', JStr ''ok'')]))),
       Call (HttpCall Upload (POST ''http://localhost:3000/api/upload'' (FormFile [80, 75, 3, 4]))
               (DataOk (JObj [(''id'', JStr ''67cc'')]))),
       Call (HttpCall Sheets (GET ''http://localhost:3000/api/documents/67cc/sheets'')
               (DataOk (JArr [JStr ''Sheet1'']))),
       Call (HttpCall Fields
               (GET ''http://localhost:3000/api/documents/67cc/fields?headers_index=0&sheetIndex=0'')
               (DataOk (JArr [JStr ''Model'', JStr ''Price'', JStr ''Description'']))),
       Call (HttpCall Parameters
               (POST ''http://localhost:3000/api/documents/67cc/parameters''
                  (JsonBody (JObj [(''sheetIndex'', JNum 0), (''headers_index'', JNum 0),
                                   (''mapping'', JObj [(''0'', JStr ''Model''), (''1'', JStr ''Price'')]),
                                   (''export_fields'', JArr [JStr ''0'', JStr ''1''])])))
               (DataOk (JObj [(''success'', JBool True)]))),
       Call (HttpCall Export (GET ''http://localhost:3000/api/documents/67cc/export'')
               (DataOk exampleExport))])"
  by (simp add: run_defs exampleParameters_def exampleWorld_def parseExportFields_01 parseInt_2048
       valid_endpoint valid_file strip_example strip_example' Number_toString_0 Number_toString_1
       trim_plain typeofObject_def)

subsection \<open>The upload and the configured number of attempts\<close>

lemma recovering_run:
  "execute recoveringWorld fiveAttempts [] =
     (Inl (Error [Txt ''Failed to upload file to conversion service: HTTP '',
                  Txt ''unknown'', Txt '' '', Txt ''unknown'', Txt ''. URL: '',
                  Txt ''http://localhost:3000/api'', Txt ''. Response: '', Txt ''no data'']),
      [Call (HttpCall Download (GET ''http://example.com/files/sample.xlsx'')
               (FileOk \<lparr> contentLength = None, fileData = [80, 75, 3, 4] \<rparr>)),
       Call (HttpCall Health (GET ''http://localhost:3000/api/health'') (Failed connectionReset)),
       Call (HttpCall BaseUrl (GET ''http://localhost:3000/api'') (Failed connectionReset)),
       Call (HttpCall Upload (POST ''http://localhost:3000/api/upload'' (FormFile [80, 75, 3, 4]))
               (Failed connectionReset)),
       Wait 5000,
       Call (HttpCall Upload (POST ''http://localhost:3000/api/upload'' (FormFile [80, 75, 3, 4]))
               (Failed connectionReset)),
       Wait 7500,
       Call (HttpCall Upload (POST ''http://localhost:3000/api/upload'' (FormFile [80, 75, 3, 4]))
               (Failed connectionReset))])"
  by (simp add: run_defs fiveAttempts_def recoveringWorld_def exampleParameters_def exampleWorld_def
       connectionReset_def statusCodePart_def statusTextPart_def responseDataPart_def
       parseExportFields_01 valid_endpoint valid_file strip_example strip_example')

lemma noSheets_run:
  "execute noSheetsWorld fiveAttempts [] =
     (Inl (Error [Txt ''Failed to get sheets'', Txt '': HTTP '', Txt ''unknown'',
                  Txt '' '', Txt ''unknown'', Txt ''. Response: '', Txt ''no data'']),
      [Call (HttpCall Download (GET ''http://example.com/files/sample.xlsx'')
               (FileOk \<lparr> contentLength = None, fileData = [80, 75, 3, 4] \<rparr>)),
       Call (HttpCall Health (GET ''http://localhost:3000/api/health'')
               (DataOk (JObj [(''status'', JStr ''ok'')]))),
       Call (HttpCall Upload (POST ''http://localhost:3000/api/upload'' (FormFile [80, 75, 3, 4]))
               (DataOk (JObj [(''id'', JStr ''67cc'')]))),
       Call (HttpCall Sheets (GET ''http://localhost:3000/api/documents/67cc/sheets'')
               (Failed connectionReset)),
       Wait 2000,
       Call (HttpCall Sheets (GET ''http://localhost:3000/api/documents/67cc/sheets'')
               (Failed connectionReset)),
       Wait 3000,
       Call (HttpCall Sheets (GET ''http://localhost:3000/api/documents/67cc/sheets'')
               (Failed connectionReset)),
       Wait 4500,
       Call (HttpCall Sheets (GET ''http://localhost:3000/api/documents/67cc/sheets'')
               (Failed connectionReset)),
       Wait 6750,
       Call (HttpCall Sheets (GET ''http://localhost:3000/api/documents/67cc/sheets'')
               (Failed connectionReset))])"
  by (simp add: run_defs fiveAttempts_def noSheetsWorld_def exampleParameters_def exampleWorld_def
       connectionReset_def httpFailure_def statusCodePart_def statusTextPart_def responseDataPart_def
       parseExportFields_01 valid_endpoint valid_file strip_example strip_example')

text \<open>
  Claim C2. Each of the six remote operations runs inside the retry wrapper, but the
  upload is not retried up to the configured count: \<open>uploadFileAndGetDocumentId\<close> calls
  \<open>withRetry\<close> with the literal \<open>3\<close>. In the run below five attempts are configured and
  the connection to the service is reset until six requests have been made. The upload
  is posted three times, each attempt failing, and the run fails, although the service
  would have answered the next request. With the same configuration the list-sheets
  operation, which is given the configured count, is tried five times.
\<close>

theorem upload_ignores_retryAttempts:
  "advancedOptions fiveAttempts \<and> retryAttempts fiveAttempts = 5 \<and>
   fst (execute recoveringWorld fiveAttempts []) =
     Inl (Error [Txt ''Failed to upload file to conversion service: HTTP '',
                 Txt ''unknown'', Txt '' '', Txt ''unknown'', Txt ''. URL: '',
                 Txt ''http://localhost:3000/api'', Txt ''. Response: '', Txt ''no data'']) \<and>
   stageCalls Upload (snd (execute recoveringWorld fiveAttempts [])) = 3 \<and>
   calls (snd (execute recoveringWorld fiveAttempts [])) = 6 \<and>
   postData recoveringWorld 6 ''http://localhost:3000/api/upload'' (FormFile [80, 75, 3, 4]) =
     Inr (JObj [(''id'', JStr ''67cc'')]) \<and>
   stageCalls Sheets (snd (execute noSheetsWorld fiveAttempts [])) = 5"
proof -
  have a: "advancedOptions fiveAttempts \<and> retryAttempts fiveAttempts = 5"
    by (simp add: fiveAttempts_def exampleParameters_def)
  have b: "postData recoveringWorld 6 ''http://localhost:3000/api/upload'' (FormFile [80, 75, 3, 4]) =
     Inr (JObj [(''id'', JStr ''67cc'')])"
    by (simp add: recoveringWorld_def exampleWorld_def)
  show ?thesis
    unfolding recovering_run noSheets_run
    using a b by (simp add: stageCalls_def calls_def)
qed

subsection \<open>Traces only grow\<close>

lemma appends_succeed: "appends Q (succeed v)"
  by (simp add: appends_def succeed_def)

lemma appends_throw: "appends Q (throw e)"
  by (simp add: appends_def throw_def)

lemma snd_converted: "snd (converted r t) = t"
  by (cases r) (simp_all add: converted_def throw_def succeed_def)

lemma appends_converted: "appends Q (converted r)"
  by (simp add: appends_def snd_converted)

lemma appends_andThen:
  assumes "appends Q m" "\<And>v. appends Q (f v)"
  shows "appends Q (andThen m f)"
  unfolding appends_def
proof
  fix t
  obtain r t1 where m: "m t = (r, t1)" by (cases "m t")
  from assms(1) m obtain u where u: "t1 = t @ u" "list_all Q u"
    unfolding appends_def by (metis snd_conv)
  show "\<exists>u. snd (andThen m f t) = t @ u \<and> list_all Q u"
  proof (cases r)
    case (Inl e)
    then show ?thesis using m u by (auto simp: andThen_def)
  next
    case (Inr v)
    from assms(2) [of v] obtain u' where u': "snd (f v t1) = t1 @ u'" "list_all Q u'"
      unfolding appends_def by blast
    have "snd (andThen m f t) = t @ (u @ u')" using Inr m u u' by (simp add: andThen_def)
    moreover have "list_all Q (u @ u')" using u u' by simp
    ultimately show ?thesis by blast
  qed
qed

lemma appends_tryCatch:
  assumes "appends Q m" "\<And>e. appends Q (h e)"
  shows "appends Q (tryCatch m h)"
  unfolding appends_def
proof
  fix t
  obtain r t1 where m: "m t = (r, t1)" by (cases "m t")
  from assms(1) m obtain u where u: "t1 = t @ u" "list_all Q u"
    unfolding appends_def by (metis snd_conv)
  show "\<exists>u. snd (tryCatch m h t) = t @ u \<and> list_all Q u"
  proof (cases r)
    case (Inr v)
    then show ?thesis using m u by (auto simp: tryCatch_def)
  next
    case (Inl e)
    from assms(2) [of e] obtain u' where u': "snd (h e t1) = t1 @ u'" "list_all Q u'"
      unfolding appends_def by blast
    have "snd (tryCatch m h t) = t @ (u @ u')" using Inl m u u' by (simp add: tryCatch_def)
    moreover have "list_all Q (u @ u')" using u u' by simp
    ultimately show ?thesis by blast
  qed
qed

lemma appends_axios_get:
  "(\<And>req out. Q (Call (HttpCall st req out))) \<Longrightarrow> appends Q (axios_get w st url)"
  by (simp add: appends_def axios_get_def Let_def)

lemma appends_axios_post:
  "(\<And>req out. Q (Call (HttpCall st req out))) \<Longrightarrow> appends Q (axios_post w st url b)"
  by (simp add: appends_def axios_post_def Let_def)

lemma appends_axios_getFile:
  "(\<And>req out. Q (Call (HttpCall st req out))) \<Longrightarrow> appends Q (axios_getFile w st url)"
  by (simp add: appends_def axios_getFile_def Let_def)

lemma withRetry_loop_appends:
  "appends Q operation \<Longrightarrow> (\<And>d. Q (Wait d)) \<Longrightarrow>
   \<exists>u. snd (withRetry_loop operation retries delay nm attempt lastError t) = t @ u \<and> list_all Q u"
proof (induction operation retries delay nm attempt lastError t rule: withRetry_loop.induct)
  case (1 operation retries delay nm attempt lastError t)
  note ap = "1.prems"(1) and qw = "1.prems"(2)
  show ?case
  proof (cases "int attempt \<le> retries")
    case False
    then show ?thesis
      by (subst withRetry_loop.simps) (simp split: option.splits)
  next
    case True
    obtain r t1 where op: "operation t = (r, t1)" by (cases "operation t")
    from ap obtain u where "snd (operation t) = t @ u" "list_all Q u"
      unfolding appends_def by blast
    with op have u: "t1 = t @ u" "list_all Q u" by simp_all
    show ?thesis
    proof (cases r)
      case (Inr v)
      then show ?thesis using True op u
        by (subst withRetry_loop.simps) simp
    next
      case (Inl e)
      let ?t2 = "if int attempt < retries then t1 @ [Wait (delay * (3 / 2) ^ (attempt - 1))] else t1"
      obtain w where w: "?t2 = t @ w" "list_all Q w"
        using u qw by (cases "int attempt < retries") auto
      have "\<exists>u'. snd (withRetry_loop operation retries delay nm (Suc attempt) (Some e) ?t2) = ?t2 @ u' \<and>
              list_all Q u'"
        using "1.IH" [OF True op [symmetric] Inl ap qw] by simp
      then obtain u' where u': "snd (withRetry_loop operation retries delay nm (Suc attempt) (Some e) ?t2) = ?t2 @ u'"
        "list_all Q u'"
        by blast
      have "snd (withRetry_loop operation retries delay nm attempt lastError t) =
            snd (withRetry_loop operation retries delay nm (Suc attempt) (Some e) ?t2)"
        using True op Inl by (subst withRetry_loop.simps) simp
      then have "snd (withRetry_loop operation retries delay nm attempt lastError t) = t @ (w @ u')"
        using u' w by simp
      moreover have "list_all Q (w @ u')" using w u' by simp
      ultimately show ?thesis by blast
    qed
  qed
qed

lemma appends_withRetry:
  "appends Q operation \<Longrightarrow> (\<And>d. Q (Wait d)) \<Longrightarrow> appends Q (withRetry operation retries delay nm)"
  unfolding withRetry_def appends_def [of Q "withRetry_loop _ _ _ _ _ _"]
  using withRetry_loop_appends by blast

subsection \<open>What the stages add to the trace\<close>

lemma stageCalls_append: "stageCalls st (t @ u) = stageCalls st t + stageCalls st u"
  by (simp add: stageCalls_def)

lemma stageCalls_none: "list_all (\<lambda>e. \<not> isStage st e) u \<Longrightarrow> stageCalls st u = 0"
  by (induction u) (simp_all add: stageCalls_def)

lemma snd_tryCatch_pure:
  assumes "\<And>e t'. snd (h e t') = t'"
  shows "snd (tryCatch m h t) = snd (m t)"
  using assms by (auto simp: tryCatch_def split: prod.splits sum.splits)

lemma snd_rethrow: "snd (rethrow e t) = t"
  by (cases e)
     (auto simp: rethrow_def throw_def Let_def andThen_def converted_def succeed_def
        split: option.splits prod.splits sum.splits)

lemma appends_rethrow: "appends Q (rethrow e)"
  by (simp add: appends_def snd_rethrow)

lemma appends_all:
  "appends (\<lambda>e. True) m \<longleftrightarrow> (\<forall>t. \<exists>u. snd (m t) = t @ u)"
  by (simp add: appends_def list_all_iff)

lemma appends_verifyApiEndpoint: "appends (\<lambda>e. True) (verifyApiEndpoint w endpoint)"
  unfolding verifyApiEndpoint_def Let_def
  by (intro appends_tryCatch appends_andThen appends_axios_get appends_succeed TrueI)

lemma verifyApiEndpoint_returns: "\<exists>b. fst (verifyApiEndpoint w endpoint t) = Inr b"
  by (auto simp: verifyApiEndpoint_def tryCatch_def andThen_def succeed_def Let_def axios_get_def
      split: sum.splits prod.splits)

lemma withRetry_loop_first:
  assumes "int attempt \<le> retries" "appends (\<lambda>e. True) operation"
  shows "\<exists>u. snd (withRetry_loop operation retries delay nm attempt lastError t) = snd (operation t) @ u"
proof -
  obtain r t1 where op: "operation t = (r, t1)" by (cases "operation t")
  show ?thesis
  proof (cases r)
    case (Inr v)
    then show ?thesis using assms(1) op
      by (subst withRetry_loop.simps) simp
  next
    case (Inl e)
    show ?thesis
    proof (cases "int attempt < retries")
      case True
      let ?t2 = "t1 @ [Wait (delay * (3 / 2) ^ (attempt - 1))]"
      obtain u where "snd (withRetry_loop operation retries delay nm (Suc attempt) (Some e) ?t2) = ?t2 @ u"
        using withRetry_loop_appends [OF assms(2), of retries delay nm "Suc attempt" "Some e" ?t2]
        by auto
      moreover have "withRetry_loop operation retries delay nm attempt lastError t =
            withRetry_loop operation retries delay nm (Suc attempt) (Some e) ?t2"
        using True op Inl by (subst withRetry_loop.simps) simp
      ultimately show ?thesis using op by simp
    next
      case False
      obtain u where "snd (withRetry_loop operation retries delay nm (Suc attempt) (Some e) t1) = t1 @ u"
        using withRetry_loop_appends [OF assms(2), of retries delay nm "Suc attempt" "Some e" t1]
        by auto
      moreover have "withRetry_loop operation retries delay nm attempt lastError t =
            withRetry_loop operation retries delay nm (Suc attempt) (Some e) t1"
        using False assms(1) op Inl by (subst withRetry_loop.simps) simp
      ultimately show ?thesis using op by simp
    qed
  qed
qed

lemma withRetry_post_called:
  assumes "1 \<le> retries"
  shows "stageCalls st t < stageCalls st (snd (withRetry (axios_post w st url b) retries delay nm t))"
proof -
  have "appends (\<lambda>e. True) (axios_post w st url b)"
    by (intro appends_axios_post TrueI)
  then obtain u where
    "snd (withRetry (axios_post w st url b) retries delay nm t) = snd (axios_post w st url b t) @ u"
    unfolding withRetry_def
    using withRetry_loop_first [of 1 retries "axios_post w st url b" delay nm None t] assms
    by auto
  then show ?thesis
    by (simp add: axios_post_def Let_def stageCalls_def)
qed

lemma upload_called:
  assumes "endpoint \<noteq> []"
  shows "stageCalls st t \<le> stageCalls st (snd (uploadFileAndGetDocumentId w endpoint bytes t)) \<and>
         1 \<le> stageCalls Upload (snd (uploadFileAndGetDocumentId w endpoint bytes t))"
proof -
  obtain b tv where v: "verifyApiEndpoint w endpoint t = (Inr b, tv)"
    using verifyApiEndpoint_returns [of w endpoint t]
    by (cases "verifyApiEndpoint w endpoint t") auto
  obtain uv where uv: "tv = t @ uv"
    using appends_verifyApiEndpoint [of w endpoint] v unfolding appends_all by (metis snd_conv)
  let ?post = "withRetry (axios_post w Upload (stripTrailingSlashes endpoint @ ''/upload'') (FormFile bytes))
                 3 5000 ''file upload''"
  have tr: "snd (uploadFileAndGetDocumentId w endpoint bytes t) = snd (?post tv)"
    using assms v unfolding uploadFileAndGetDocumentId_def Let_def
    by (subst snd_tryCatch_pure)
       (auto simp: throw_def succeed_def andThen_def converted_def
          split: error.splits prod.splits sum.splits option.splits)
  have "appends (\<lambda>e. True) ?post"
    by (intro appends_withRetry appends_axios_post TrueI)
  then obtain up where up: "snd (?post tv) = tv @ up"
    unfolding appends_all by blast
  have "stageCalls Upload tv < stageCalls Upload (snd (?post tv))"
    by (rule withRetry_post_called) simp
  then show ?thesis
    unfolding tr using up uv by (simp add: stageCalls_append)
qed

lemmas appends_intros = appends_tryCatch appends_andThen appends_axios_get appends_axios_post
  appends_axios_getFile appends_throw appends_succeed appends_withRetry appends_rethrow
  appends_converted

lemma appends_getSheets: "appends (\<lambda>e. True) (getSheets w endpoint documentId)"
  unfolding getSheets_def Let_def
  by (auto intro!: appends_intros split: jvalue.splits option.splits error.splits)

lemma appends_getFields: "appends (\<lambda>e. True) (getFields w endpoint documentId si hi)"
  unfolding getFields_def Let_def
  by (auto intro!: appends_intros split: jvalue.splits option.splits error.splits)

lemma appends_setParameters: "appends (\<lambda>e. True) (setParameters w endpoint documentId si hi mp idxs)"
  unfolding setParameters_def Let_def
  by (auto intro!: appends_intros split: sum.splits error.splits)

lemma appends_getExportedData: "appends (\<lambda>e. True) (getExportedData w endpoint documentId)"
  unfolding getExportedData_def Let_def
  by (auto intro!: appends_intros split: error.splits)

lemma appends_upload: "appends (\<lambda>e. True) (uploadFileAndGetDocumentId w endpoint bytes)"
  unfolding uploadFileAndGetDocumentId_def Let_def
  by (auto intro!: appends_intros appends_verifyApiEndpoint split: option.splits error.splits)

lemma appends_convert: "appends (\<lambda>e. True) (convert w p endpoint attempts idxs fileResp)"
  unfolding convert_def Let_def
  by (auto intro!: appends_intros appends_upload appends_getSheets appends_getFields
        appends_setParameters appends_getExportedData)

lemma stageCalls_andThen_ge:
  assumes "\<And>v. appends (\<lambda>e. True) (f v)"
  shows "stageCalls st (snd (m t)) \<le> stageCalls st (snd (andThen m f t))"
proof (cases "m t")
  case (Pair r t1)
  show ?thesis
  proof (cases r)
    case (Inl e)
    then show ?thesis using Pair by (simp add: andThen_def)
  next
    case (Inr v)
    from assms [of v] obtain u where "snd (f v t1) = t1 @ u"
      unfolding appends_all by blast
    then show ?thesis using Pair Inr by (simp add: andThen_def stageCalls_append)
  qed
qed

lemma convert_upload_called:
  assumes "endpoint \<noteq> []"
  shows "1 \<le> stageCalls Upload (snd (convert w p endpoint attempts idxs fileResp t))"
proof -
  have "1 \<le> stageCalls Upload (snd (uploadFileAndGetDocumentId w endpoint (fileData fileResp) t))"
    using upload_called [OF assms] by blast
  also have "\<dots> \<le> stageCalls Upload (snd (convert w p endpoint attempts idxs fileResp t))"
    unfolding convert_def Let_def
    by (rule stageCalls_andThen_ge)
       (auto intro!: appends_intros appends_getSheets appends_getFields
          appends_setParameters appends_getExportedData)
  finally show ?thesis .
qed

subsection \<open>The size check\<close>

lemma isValidUrl_nonempty: "isValidUrl parse s \<Longrightarrow> s \<noteq> []"
  by (auto simp: isValidUrl_def)

lemma exceedsLimit_bytes:
  "exceedsLimit (fileSize fileResp) \<longleftrightarrow>
     (case reportedBytes fileResp of Some n \<Rightarrow> n > 50 * 1024 * 1024 | None \<Rightarrow> False)"
proof -
  have a: "(50::rat) < of_int n / 1048576 \<longleftrightarrow> 52428800 < n" for n :: int
  proof -
    have "(50::rat) < of_int n / 1048576 \<longleftrightarrow> (50::rat) * 1048576 < of_int n"
      by (simp add: pos_less_divide_eq)
    also have "\<dots> \<longleftrightarrow> (of_int 52428800 :: rat) < of_int n" by simp
    also have "\<dots> \<longleftrightarrow> 52428800 < n" by (simp only: of_int_less_iff)
    finally show ?thesis .
  qed
  have b: "(50::rat) < of_nat k / 1048576 \<longleftrightarrow> 52428800 < k" for k :: nat
    using a [of "int k"] by simp
  show ?thesis
  proof (cases "contentLength fileResp")
    case None
    then show ?thesis
      by (simp add: exceedsLimit_def fileSize_def reportedBytes_def b)
  next
    case (Some header)
    show ?thesis
    proof (cases "header = []")
      case True
      then show ?thesis using Some
        by (simp add: exceedsLimit_def fileSize_def reportedBytes_def b)
    next
      case False
      then show ?thesis using Some
        by (cases "parseInt header")
           (simp_all add: exceedsLimit_def fileSize_def reportedBytes_def a)
    qed
  qed
qed

lemma download_only_downloads:
  assumes "withRetry (axios_getFile w Download url) attempts delay nm [] = (r, t1)"
  shows "list_all (\<lambda>e. isStage Download e \<or> \<not> isCall e) t1"
proof -
  have "appends (\<lambda>e. isStage Download e \<or> \<not> isCall e)
          (withRetry (axios_getFile w Download url) attempts delay nm)"
    by (intro appends_withRetry appends_axios_getFile) simp_all
  then obtain u where "snd (withRetry (axios_getFile w Download url) attempts delay nm []) = [] @ u"
      "list_all (\<lambda>e. isStage Download e \<or> \<not> isCall e) u"
    unfolding appends_def by blast
  then show ?thesis using assms by simp
qed

lemma download_event_not_upload:
  assumes "isStage Download e \<or> \<not> isCall e"
  shows "\<not> isStage Upload e"
proof (cases e)
  case (Call c)
  with assms show ?thesis by (cases c) auto
next
  case (Wait d)
  then show ?thesis by simp
qed

lemma only_downloads_no_upload:
  "list_all (\<lambda>e. isStage Download e \<or> \<not> isCall e) t \<Longrightarrow> stageCalls Upload t = 0"
  by (induction t) (simp_all add: stageCalls_def download_event_not_upload)

lemma parseInt_limit: "parseInt ''52428800'' = Some 52428800" "parseInt ''52428801'' = Some 52428801"
  by (simp_all add: parseInt_def isWhiteSpace_def isDigit_def digitsValue_def Let_def)

lemma example_download:
  "withRetry (axios_getFile (exampleWorld header) Download (fileUrl exampleParameters))
     (if advancedOptions exampleParameters then retryAttempts exampleParameters else 3)
     5000 ''file download'' [] =
   (Inr \<lparr> contentLength = header, fileData = [80, 75, 3, 4] \<rparr>,
    [Call (HttpCall Download (GET ''http://example.com/files/sample.xlsx'')
             (FileOk \<lparr> contentLength = header, fileData = [80, 75, 3, 4] \<rparr>))])"
  by (simp add: withRetry_def withRetry_loop.simps axios_getFile_def Let_def exampleWorld_def
       exampleParameters_def)

lemma example_valid:
  "apiEndpoint exampleParameters \<noteq> []"
  "isValidUrl (newURL (exampleWorld header)) (stripTrailingSlashes (apiEndpoint exampleParameters))"
  "isValidUrl (newURL (exampleWorld header)) (fileUrl exampleParameters)"
  by (simp_all add: exampleParameters_def exampleWorld_def strip_example valid_endpoint valid_file)

text \<open>
  Claim C5. Take a run whose two addresses are valid and whose download, retries
  included, has returned a response. The size that is compared is read from the
  \<open>content-length\<close> header when there is one, else from the number of bytes
  downloaded, and it exceeds the limit exactly when that number of bytes is greater than
  \<open>50 * 1024 * 1024\<close>. When it does, the run ends at once with the failure
  \<open>File size exceeds 50 MB limit\<close>: its trace is the trace of the download, which holds
  download requests and waits only, so no upload was attempted and nothing was retried.
  When it does not, the run goes on from the trace of the download and posts the
  upload at least once.
\<close>

theorem size_limit_gate:
  "apiEndpoint p \<noteq> [] \<Longrightarrow>
   isValidUrl (newURL w) (stripTrailingSlashes (apiEndpoint p)) \<Longrightarrow>
   isValidUrl (newURL w) (fileUrl p) \<Longrightarrow>
   withRetry (axios_getFile w Download (fileUrl p)) (if advancedOptions p then retryAttempts p else 3)
     5000 ''file download'' [] = (Inr fileResp, t1) \<Longrightarrow>
   (exceedsLimit (fileSize fileResp) \<longleftrightarrow>
      (case reportedBytes fileResp of Some n \<Rightarrow> n > 50 * 1024 * 1024 | None \<Rightarrow> False)) \<and>
   (exceedsLimit (fileSize fileResp) \<longrightarrow>
      execute w p [] = (Inl sizeLimitFailure, t1) \<and>
      list_all (\<lambda>e. isStage Download e \<or> \<not> isCall e) t1 \<and> stageCalls Upload t1 = 0) \<and>
   (\<not> exceedsLimit (fileSize fileResp) \<longrightarrow>
      prefix t1 (snd (execute w p [])) \<and> 1 \<le> stageCalls Upload (snd (execute w p [])))"
proof (intro conjI impI)
  assume v1: "apiEndpoint p \<noteq> []"
    and v2: "isValidUrl (newURL w) (stripTrailingSlashes (apiEndpoint p))"
    and v3: "isValidUrl (newURL w) (fileUrl p)"
    and d: "withRetry (axios_getFile w Download (fileUrl p)) (if advancedOptions p then retryAttempts p else 3)
              5000 ''file download'' [] = (Inr fileResp, t1)"
  let ?endpoint = "stripTrailingSlashes (apiEndpoint p)"
  let ?attempts = "if advancedOptions p then retryAttempts p else 3"
  show "exceedsLimit (fileSize fileResp) \<longleftrightarrow>
      (case reportedBytes fileResp of Some n \<Rightarrow> n > 50 * 1024 * 1024 | None \<Rightarrow> False)"
    by (rule exceedsLimit_bytes)
  have only: "list_all (\<lambda>e. isStage Download e \<or> \<not> isCall e) t1"
    using d by (rule download_only_downloads)
  {
    assume big: "exceedsLimit (fileSize fileResp)"
    show "execute w p [] = (Inl sizeLimitFailure, t1)"
      using v1 v2 v3 d big
      by (simp add: execute_def Let_def tryCatch_def andThen_def throw_def rethrow_def
           sizeLimitFailure_def)
    show "list_all (\<lambda>e. isStage Download e \<or> \<not> isCall e) t1" by (rule only)
    show "stageCalls Upload t1 = 0" using only by (rule only_downloads_no_upload)
  }
  {
    assume small: "\<not> exceedsLimit (fileSize fileResp)"
    have tr: "snd (execute w p []) =
              snd (convert w p ?endpoint ?attempts (parseExportFields (exportFields p)) fileResp t1)"
      using v1 v2 v3 d small
      by (simp add: execute_def Let_def snd_tryCatch_pure [of rethrow, OF snd_rethrow] andThen_def)
    obtain u where "snd (convert w p ?endpoint ?attempts (parseExportFields (exportFields p)) fileResp t1) = t1 @ u"
      using appends_convert [of w p ?endpoint ?attempts "parseExportFields (exportFields p)" fileResp]
      unfolding appends_all by blast
    then show "prefix t1 (snd (execute w p []))" unfolding tr by simp
    show "1 \<le> stageCalls Upload (snd (execute w p []))"
      unfolding tr by (rule convert_upload_called) (rule isValidUrl_nonempty [OF v2])
  }
qed

theorem size_limit_gate_witness:
  "1 \<le> stageCalls Upload (snd (execute (exampleWorld (Some ''52428800'')) exampleParameters [])) \<and>
   execute (exampleWorld (Some ''52428801'')) exampleParameters [] =
     (Inl sizeLimitFailure,
      [Call (HttpCall Download (GET ''http://example.com/files/sample.xlsx'')
               (FileOk \<lparr> contentLength = Some ''52428801'', fileData = [80, 75, 3, 4] \<rparr>))])"
proof -
  note at50 = size_limit_gate [OF example_valid(1) example_valid(2) example_valid(3)
      example_download, of "Some ''52428800''"]
  note over = size_limit_gate [OF example_valid(1) example_valid(2) example_valid(3)
      example_download, of "Some ''52428801''"]
  have "\<not> exceedsLimit (fileSize \<lparr> contentLength = Some ''52428800'', fileData = [80, 75, 3, 4] \<rparr>)"
    using conjunct1 [OF at50] by (simp add: reportedBytes_def parseInt_limit)
  then have a: "1 \<le> stageCalls Upload (snd (execute (exampleWorld (Some ''52428800'')) exampleParameters []))"
    using conjunct2 [OF conjunct2 [OF at50]] by blast
  have "exceedsLimit (fileSize \<lparr> contentLength = Some ''52428801'', fileData = [80, 75, 3, 4] \<rparr>)"
    using conjunct1 [OF over] by (simp add: reportedBytes_def parseInt_limit)
  then have b: "execute (exampleWorld (Some ''52428801'')) exampleParameters [] =
     (Inl sizeLimitFailure,
      [Call (HttpCall Download (GET ''http://example.com/files/sample.xlsx'')
               (FileOk \<lparr> contentLength = Some ''52428801'', fileData = [80, 75, 3, 4] \<rparr>))])"
    using conjunct1 [OF conjunct2 [OF over]] by blast
  show ?thesis using a b by (rule conjI)
qed

subsection \<open>What a run returns\<close>

lemma returnsOnly_throw: "returnsOnly R (throw e)"
  by (simp add: returnsOnly_def throw_def)

lemma returnsOnly_andThen:
  assumes "\<And>x. returnsOnly R (f x)"
  shows "returnsOnly R (andThen m f)"
  using assms unfolding returnsOnly_def andThen_def
  by (auto split: prod.splits sum.splits)

lemma returnsOnly_tryCatch:
  assumes "returnsOnly R m" "\<And>e. returnsOnly R (h e)"
  shows "returnsOnly R (tryCatch m h)"
  using assms unfolding returnsOnly_def tryCatch_def
  by (auto split: prod.splits sum.splits)

lemma returnsOnly_if:
  "(c \<Longrightarrow> returnsOnly R a) \<Longrightarrow> (\<not> c \<Longrightarrow> returnsOnly R b) \<Longrightarrow> returnsOnly R (if c then a else b)"
  by simp

lemma returnsOnly_rethrow: "returnsOnly R (rethrow e)"
  by (cases e)
     (auto simp: rethrow_def returnsOnly_def throw_def Let_def andThen_def converted_def succeed_def
        split: option.splits prod.splits sum.splits)

lemma withRetry_loop_returns:
  "withRetry_loop operation retries delay nm attempt lastError t = (Inr v, t') \<Longrightarrow>
   \<exists>t0. operation t0 = (Inr v, t')"
proof (induction operation retries delay nm attempt lastError t rule: withRetry_loop.induct)
  case (1 operation retries delay nm attempt lastError t)
  show ?case
  proof (cases "int attempt \<le> retries")
    case False
    with "1.prems" show ?thesis
      by (subst (asm) withRetry_loop.simps) (simp split: option.splits)
  next
    case True
    obtain r t1 where op: "operation t = (r, t1)" by (cases "operation t")
    show ?thesis
    proof (cases r)
      case (Inr x)
      with "1.prems" True op have "x = v" "t1 = t'"
        by (subst (asm) withRetry_loop.simps, simp)+
      with op Inr show ?thesis by blast
    next
      case (Inl e)
      let ?t2 = "if int attempt < retries then t1 @ [Wait (delay * (3 / 2) ^ (attempt - 1))] else t1"
      have "withRetry_loop operation retries delay nm (Suc attempt) (Some e) ?t2 = (Inr v, t')"
        using "1.prems" True op Inl
        by (subst (asm) withRetry_loop.simps) simp
      then show ?thesis
        by (rule "1.IH" [OF True op [symmetric] Inl])
    qed
  qed
qed

lemma getExportedData_returns:
  assumes "getExportedData w endpoint documentId t0 = (Inr v, t')"
  shows "t' = t0 @ [Call (HttpCall Export
                      (GET (stripTrailingSlashes endpoint @ ''/documents/'' @ documentId @ ''/export''))
                      (DataOk v))] \<and>
         getData w (calls t0)
           (stripTrailingSlashes endpoint @ ''/documents/'' @ documentId @ ''/export'') = Inr v"
proof (cases "getData w (calls t0)
                (stripTrailingSlashes endpoint @ ''/documents/'' @ documentId @ ''/export'')")
  case (Inl e)
  with assms show ?thesis
    by (cases e)
       (simp_all add: getExportedData_def Let_def tryCatch_def andThen_def axios_get_def throw_def)
next
  case (Inr d)
  with assms show ?thesis
    by (auto simp: getExportedData_def Let_def tryCatch_def andThen_def axios_get_def throw_def
          succeed_def split: if_splits)
qed

lemma returnsOnly_export:
  "returnsOnly
     (\<lambda>tr items. \<exists>documentId payload t0.
        tr = t0 @ [Call (HttpCall Export
                     (GET (stripTrailingSlashes endpoint @ ''/documents/'' @ documentId @ ''/export''))
                     (DataOk payload))] \<and>
        getData w (calls t0)
          (stripTrailingSlashes endpoint @ ''/documents/'' @ documentId @ ''/export'') = Inr payload \<and>
        items = outputItems payload)
     (andThen (withRetry (getExportedData w endpoint documentId) attempts delay nm)
        (\<lambda>jsonData. succeed (outputItems jsonData)))"
  unfolding returnsOnly_def
proof (intro allI impI)
  fix t items tr
  assume a: "andThen (withRetry (getExportedData w endpoint documentId) attempts delay nm)
               (\<lambda>jsonData. succeed (outputItems jsonData)) t = (Inr items, tr)"
  then obtain jsonData where r: "withRetry (getExportedData w endpoint documentId) attempts delay nm t =
      (Inr jsonData, tr)" and i: "items = outputItems jsonData"
    by (auto simp: andThen_def succeed_def split: prod.splits sum.splits)
  from r obtain t0 where "getExportedData w endpoint documentId t0 = (Inr jsonData, tr)"
    unfolding withRetry_def
    using withRetry_loop_returns [of "getExportedData w endpoint documentId" attempts delay nm 1 None t jsonData tr]
    by blast
  then have "tr = t0 @ [Call (HttpCall Export
                      (GET (stripTrailingSlashes endpoint @ ''/documents/'' @ documentId @ ''/export''))
                      (DataOk jsonData))] \<and>
         getData w (calls t0)
           (stripTrailingSlashes endpoint @ ''/documents/'' @ documentId @ ''/export'') = Inr jsonData"
    by (rule getExportedData_returns)
  with i show "\<exists>documentId payload t0.
        tr = t0 @ [Call (HttpCall Export
                     (GET (stripTrailingSlashes endpoint @ ''/documents/'' @ documentId @ ''/export''))
                     (DataOk payload))] \<and>
        getData w (calls t0)
          (stripTrailingSlashes endpoint @ ''/documents/'' @ documentId @ ''/export'') = Inr payload \<and>
        items = outputItems payload"
    by blast
qed

lemma returnsOnly_execute:
  "returnsOnly
     (\<lambda>tr items. \<exists>documentId payload t0.
        tr = t0 @ [Call (HttpCall Export
                     (GET (stripTrailingSlashes (stripTrailingSlashes (apiEndpoint p)) @
                           ''/documents/'' @ documentId @ ''/export''))
                     (DataOk payload))] \<and>
        getData w (calls t0)
          (stripTrailingSlashes (stripTrailingSlashes (apiEndpoint p)) @
           ''/documents/'' @ documentId @ ''/export'') = Inr payload \<and>
        items = outputItems payload)
     (execute w p)"
  unfolding execute_def convert_def Let_def
  by (rule returnsOnly_tryCatch returnsOnly_rethrow returnsOnly_export returnsOnly_throw
        returnsOnly_if returnsOnly_andThen)+

text \<open>
  Claim C7. Whenever \<open>execute\<close> returns, the last event of its trace is the export
  request that succeeded, a \<open>GET\<close> of \<open>{base}/documents/{id}/export\<close>; the payload is
  what the service answered to that request at that point of the run, and the items
  returned are the output items of that payload. For a payload that is an array of \<open>n\<close>
  records these are exactly \<open>n\<close> items, the \<open>i\<close>-th carrying the \<open>i\<close>-th record as it is,
  in order; for a payload that is not an array it is the one item that carries the
  payload.
\<close>

theorem output_items:
  "(execute w p t = (Inr items, tr) \<longrightarrow>
      (\<exists>documentId payload t0.
         tr = t0 @ [Call (HttpCall Export
                      (GET (stripTrailingSlashes (stripTrailingSlashes (apiEndpoint p)) @
                            ''/documents/'' @ documentId @ ''/export''))
                      (DataOk payload))] \<and>
         getData w (calls t0)
           (stripTrailingSlashes (stripTrailingSlashes (apiEndpoint p)) @
            ''/documents/'' @ documentId @ ''/export'') = Inr payload \<and>
         items = outputItems payload)) \<and>
   outputItems (JArr recs) = map (\<lambda>r. \<lparr> json = r \<rparr>) recs \<and>
   length (outputItems (JArr recs)) = length recs \<and>
   (\<forall>i. i < length recs \<longrightarrow> json (outputItems (JArr recs) ! i) = recs ! i) \<and>
   ((\<forall>rs. payload \<noteq> JArr rs) \<longrightarrow> outputItems payload = [\<lparr> json = payload \<rparr>])"
proof (intro conjI impI allI)
  assume "execute w p t = (Inr items, tr)"
  then show "\<exists>documentId payload t0.
         tr = t0 @ [Call (HttpCall Export
                      (GET (stripTrailingSlashes (stripTrailingSlashes (apiEndpoint p)) @
                            ''/documents/'' @ documentId @ ''/export''))
                      (DataOk payload))] \<and>
         getData w (calls t0)
           (stripTrailingSlashes (stripTrailingSlashes (apiEndpoint p)) @
            ''/documents/'' @ documentId @ ''/export'') = Inr payload \<and>
         items = outputItems payload"
    using returnsOnly_execute [of p w] unfolding returnsOnly_def by blast
next
  show "outputItems (JArr recs) = map (\<lambda>r. \<lparr> json = r \<rparr>) recs"
    by (simp add: outputItems_def)
  show "length (outputItems (JArr recs)) = length recs"
    by (simp add: outputItems_def)
  show "json (outputItems (JArr recs) ! i) = recs ! i" if "i < length recs" for i
    using that by (simp add: outputItems_def)
  show "outputItems payload = [\<lparr> json = payload \<rparr>]" if "\<forall>rs. payload \<noteq> JArr rs"
    using that by (cases payload) (simp_all add: outputItems_def)
qed

theorem output_items_witness:
  "execute (exampleWorld (Some ''2048'')) exampleParameters [] =
     (Inr [\<lparr> json = JObj [(''Model'', JStr ''A''), (''Price'', JStr ''100'')] \<rparr>,
           \<lparr> json = JObj [(''Model'', JStr ''B''), (''Price'', JStr ''200'')] \<rparr>],
      snd (execute (exampleWorld (Some ''2048'')) exampleParameters [])) \<and>
   (\<exists>documentId payload t0.
      snd (execute (exampleWorld (Some ''2048'')) exampleParameters []) =
        t0 @ [Call (HttpCall Export
                 (GET (stripTrailingSlashes (stripTrailingSlashes (apiEndpoint exampleParameters)) @
                       ''/documents/'' @ documentId @ ''/export''))
                 (DataOk payload))] \<and>
      getData (exampleWorld (Some ''2048'')) (calls t0)
        (stripTrailingSlashes (stripTrailingSlashes (apiEndpoint exampleParameters)) @
         ''/documents/'' @ documentId @ ''/export'') = Inr payload \<and>
      [\<lparr> json = JObj [(''Model'', JStr ''A''), (''Price'', JStr ''100'')] \<rparr>,
       \<lparr> json = JObj [(''Model'', JStr ''B''), (''Price'', JStr ''200'')] \<rparr>] = outputItems payload) \<and>
   outputItems (JObj [(''Model'', JStr ''A'')]) = [\<lparr> json = JObj [(''Model'', JStr ''A'')] \<rparr>]"
proof -
  let ?items = "[\<lparr> json = JObj [(''Model'', JStr ''A''), (''Price'', JStr ''100'')] \<rparr>,
                 \<lparr> json = JObj [(''Model'', JStr ''B''), (''Price'', JStr ''200'')] \<rparr>]"
  let ?run = "execute (exampleWorld (Some ''2048'')) exampleParameters []"
  have a: "?run = (Inr ?items, snd ?run)"
    by (simp add: example_run)
  note inst = output_items [of "exampleWorld (Some ''2048'')" exampleParameters "[]" ?items "snd ?run"
      "[]" "JObj [(''Model'', JStr ''A'')]"]
  have b: "\<exists>documentId payload t0.
      snd ?run =
        t0 @ [Call (HttpCall Export
                 (GET (stripTrailingSlashes (stripTrailingSlashes (apiEndpoint exampleParameters)) @
                       ''/documents/'' @ documentId @ ''/export''))
                 (DataOk payload))] \<and>
      getData (exampleWorld (Some ''2048'')) (calls t0)
        (stripTrailingSlashes (stripTrailingSlashes (apiEndpoint exampleParameters)) @
         ''/documents/'' @ documentId @ ''/export'') = Inr payload \<and>
      ?items = outputItems payload"
    using conjunct1 [OF inst] a by blast
  have c: "outputItems (JObj [(''Model'', JStr ''A'')]) = [\<lparr> json = JObj [(''Model'', JStr ''A'')] \<rparr>]"
    using conjunct2 [OF conjunct2 [OF conjunct2 [OF conjunct2 [OF inst]]]] by simp
  show ?thesis using a b c by (intro conjI)
qed

end
